theory Spec2Isabelle
  imports Complex_Main
begin

section \<open>Errors\<close>

text \<open>
  Python exceptions are values. Only the exceptions that the modelled code paths can
  raise are listed; \<open>NotImplementedError\<close> carries its message.
\<close>

datatype error =
    NotImplementedError string
  | IndexError
  | ValueError
  | ZeroDivisionError
  | FileNotFoundError
  | RuntimeError
  | AssertionError

section \<open>Floating-point values\<close>

text \<open>
  A float is a real number or one of the three special values. Comparisons follow
  IEEE 754: every comparison with \<open>NaN\<close> is false.
\<close>

datatype fl = NaN | NInf | Fin real | PInf

fun fl_lt :: "fl \<Rightarrow> fl \<Rightarrow> bool" where
  "fl_lt NaN _ = False"
| "fl_lt _ NaN = False"
| "fl_lt _ NInf = False"
| "fl_lt NInf _ = True"
| "fl_lt PInf _ = False"
| "fl_lt (Fin a) PInf = True"
| "fl_lt (Fin a) (Fin b) = (a < b)"

fun fl_le :: "fl \<Rightarrow> fl \<Rightarrow> bool" where
  "fl_le NaN _ = False"
| "fl_le _ NaN = False"
| "fl_le NInf _ = True"
| "fl_le _ PInf = True"
| "fl_le PInf _ = False"
| "fl_le (Fin a) NInf = False"
| "fl_le (Fin a) (Fin b) = (a \<le> b)"

definition isnan :: "fl \<Rightarrow> bool" where
  "isnan x = (x = NaN)"

section \<open>Arrays\<close>

text \<open>
  A numpy array or torch tensor is its shape and its elements in row-major order.
  \<open>index_axis1 a j\<close> is \<open>a[:, j]\<close>, \<open>slice_axis1_from a k\<close> is \<open>a[:, k:]\<close> and
  \<open>argmax_axis1 a\<close> is \<open>np.argmax(a, axis=1)\<close>. \<open>argmax_scan\<close> is numpy's scan:
  it keeps the first maximum and stops at the first \<open>NaN\<close>.
\<close>

record 'a ndarray =
  shape :: "nat list"
  data :: "'a list"

definition wf_ndarray :: "'a ndarray \<Rightarrow> bool" where
  "wf_ndarray a = (length (data a) = prod_list (shape a))"

definition index_axis1 :: "'a ndarray \<Rightarrow> int \<Rightarrow> error + 'a ndarray" where
  "index_axis1 a j =
    (case shape a of
       n # m # rest \<Rightarrow>
         (let j' = (if j < 0 then int m + j else j) in
          if 0 \<le> j' \<and> j' < int m then
            (let b = prod_list rest in
             Inr \<lparr>shape = n # rest,
                  data = concat (map (\<lambda>i. take b (drop ((i * m + nat j') * b) (data a))) [0..<n])\<rparr>)
          else Inl IndexError)
     | _ \<Rightarrow> Inl IndexError)"

definition slice_axis1_from :: "'a ndarray \<Rightarrow> nat \<Rightarrow> error + 'a ndarray" where
  "slice_axis1_from a k =
    (case shape a of
       n # m # rest \<Rightarrow>
         (let k' = min k m; b = prod_list rest in
          Inr \<lparr>shape = n # (m - k') # rest,
               data = concat (map (\<lambda>i. take ((m - k') * b) (drop ((i * m + k') * b) (data a))) [0..<n])\<rparr>)
     | _ \<Rightarrow> Inl IndexError)"

fun argmax_scan :: "nat \<Rightarrow> fl \<Rightarrow> nat \<Rightarrow> fl list \<Rightarrow> nat" where
  "argmax_scan max_ind mp i [] = max_ind"
| "argmax_scan max_ind mp i (x # xs) =
     (if isnan mp then max_ind
      else if \<not> fl_le x mp then argmax_scan i x (Suc i) xs
      else argmax_scan max_ind mp (Suc i) xs)"

definition argmax1 :: "fl list \<Rightarrow> nat" where
  "argmax1 xs = (case xs of [] \<Rightarrow> 0 | x # rest \<Rightarrow> argmax_scan 0 x 1 rest)"

definition argmax_axis1 :: "fl ndarray \<Rightarrow> error + nat ndarray" where
  "argmax_axis1 a =
    (case shape a of
       n # m # rest \<Rightarrow>
         if m = 0 then Inl ValueError
         else
           (let b = prod_list rest in
            Inr \<lparr>shape = n # rest,
                 data = concat (map (\<lambda>i. map (\<lambda>k.
                          argmax1 (map (\<lambda>j. data a ! ((i * m + j) * b + k)) [0..<m])) [0..<b]) [0..<n])\<rparr>)
     | _ \<Rightarrow> Inl ValueError)"

section \<open>Explainability helper (utils/baseline_attributions.py)\<close>

text \<open>
  \<open>model.predict\<close> is the argument \<open>predict\<close>; it may raise.
\<close>

definition get_probabilistic_predictions ::
  "('x \<Rightarrow> error + 'a ndarray) \<Rightarrow> 'x \<Rightarrow> error + 'a ndarray" where
  "get_probabilistic_predictions predict X =
    (case predict X of
       Inl e \<Rightarrow> Inl e
     | Inr ypred \<Rightarrow>
         if length (shape ypred) = 2 then index_axis1 ypred (- 1) else Inr ypred)"

text \<open>Element \<open>(i, j)\<close> of a two-dimensional array.\<close>

definition at2 :: "'a ndarray \<Rightarrow> nat \<Rightarrow> nat \<Rightarrow> 'a" where
  "at2 a i j = data a ! (i * (shape a ! 1) + j)"

section \<open>The model registry (models/__init__.py)\<close>

text \<open>
  \<open>str2model\<close> returns a class object. The classes live in modules that are imported
  on demand; a class is identified here by its name. The imports are taken to succeed.
\<close>

datatype model_class =
    LinearModel | KNN | SVM | DecisionTree | RandomForest
  | XGBoost | CatBoost | LightGBM
  | MLP | ModelTree | TabNet | VIME | TabTransformer | NODE | DeepGBM | RLN | DNFNet | STG

definition str2model :: "string \<Rightarrow> error + model_class" where
  "str2model model =
    (if model = ''LinearModel'' then Inr LinearModel
     else if model = ''KNN'' then Inr KNN
     else if model = ''SVM'' then Inr SVM
     else if model = ''DecisionTree'' then Inr DecisionTree
     else if model = ''RandomForest'' then Inr RandomForest
     else if model = ''XGBoost'' then Inr XGBoost
     else if model = ''CatBoost'' then Inr CatBoost
     else if model = ''LightGBM'' then Inr LightGBM
     else if model = ''MLP'' then Inr MLP
     else if model = ''ModelTree'' then Inr ModelTree
     else if model = ''TabNet'' then Inr TabNet
     else if model = ''VIME'' then Inr VIME
     else if model = ''TabTransformer'' then Inr TabTransformer
     else if model = ''NODE'' then Inr NODE
     else if model = ''DeepGBM'' then Inr DeepGBM
     else if model = ''RLN'' then Inr RLN
     else if model = ''DNFNet'' then Inr DNFNet
     else if model = ''STG'' then Inr STG
     else Inl (NotImplementedError (''Model \"'' @ model @ ''\" not yet implemented'')))"

text \<open>
  The registry as the specification enumerates it: every identifier with the
  implementation it names. This table follows the specification's list, not the code;
  the theorem below compares the two.
\<close>

definition registry_table :: "(string \<times> model_class) list" where
  "registry_table =
    [(''LinearModel'', LinearModel), (''KNN'', KNN), (''SVM'', SVM),
     (''DecisionTree'', DecisionTree), (''RandomForest'', RandomForest),
     (''XGBoost'', XGBoost), (''CatBoost'', CatBoost), (''LightGBM'', LightGBM),
     (''MLP'', MLP), (''ModelTree'', ModelTree), (''TabNet'', TabNet), (''VIME'', VIME),
     (''TabTransformer'', TabTransformer), (''NODE'', NODE), (''DeepGBM'', DeepGBM),
     (''RLN'', RLN), (''DNFNet'', DNFNet), (''STG'', STG)]"

section \<open>Evaluation driver (evaluate.py)\<close>

text \<open>
  The scorer, the loader of persisted predictions and the scorer factory are not part of
  the sources at hand: the scorer is a state with its two operations, the loader and the
  factory are arguments of \<open>main\<close>. \<open>eval_loop\<close> is the \<open>for pred in predictions\<close> loop.
\<close>

record ('s, 'r) scorer =
  scorer_eval :: "'s \<Rightarrow> fl ndarray \<Rightarrow> nat ndarray \<Rightarrow> fl ndarray \<Rightarrow> 's"
  scorer_get_results :: "'s \<Rightarrow> 'r \<times> 's"

fun eval_loop :: "('s, 'r) scorer \<Rightarrow> 's \<Rightarrow> fl ndarray list \<Rightarrow> error + 's" where
  "eval_loop sc s [] = Inr s"
| "eval_loop sc s (pred # preds) =
     (case index_axis1 pred 0 of
        Inl e \<Rightarrow> Inl e
      | Inr truth \<Rightarrow>
          (case slice_axis1_from pred 1 of
             Inl e \<Rightarrow> Inl e
           | Inr out \<Rightarrow>
               (case argmax_axis1 out of
                  Inl e \<Rightarrow> Inl e
                | Inr pred_label \<Rightarrow> eval_loop sc (scorer_eval sc s truth pred_label out) preds)))"

definition main ::
  "('args \<Rightarrow> error + fl ndarray list) \<Rightarrow> ('args \<Rightarrow> ('s, 'r) scorer \<times> 's) \<Rightarrow> 'args
     \<Rightarrow> error + ('r \<times> 's)" where
  "main get_predictions_from_file get_scorer args =
    (case get_predictions_from_file args of
       Inl e \<Rightarrow> Inl e
     | Inr predictions \<Rightarrow>
         (case get_scorer args of
            (sc, s0) \<Rightarrow>
              (case eval_loop sc s0 predictions of
                 Inl e \<Rightarrow> Inl e
               | Inr s \<Rightarrow> Inr (scorer_get_results sc s))))"

text \<open>
  Vocabulary for the statements about \<open>main\<close>: row \<open>i\<close> of a two-dimensional array; a
  prediction record (two-dimensional, a truth column and at least one further column);
  the first index of a maximum of a list; and the three arrays a record is split into,
  written row by row.
\<close>

definition row2 :: "'a ndarray \<Rightarrow> nat \<Rightarrow> 'a list" where
  "row2 a i = take (shape a ! 1) (drop (i * (shape a ! 1)) (data a))"

definition prediction_record :: "'a ndarray \<Rightarrow> bool" where
  "prediction_record p =
    (case shape p of [n, m] \<Rightarrow> 2 \<le> m \<and> length (data p) = n * m | _ \<Rightarrow> False)"

definition first_max_index :: "fl list \<Rightarrow> nat \<Rightarrow> bool" where
  "first_max_index xs k =
    (k < length xs \<and> (\<forall>j<length xs. fl_le (xs ! j) (xs ! k)) \<and> (\<forall>j<k. fl_lt (xs ! j) (xs ! k)))"

definition truth_of :: "'a ndarray \<Rightarrow> 'a ndarray" where
  "truth_of p = \<lparr>shape = [hd (shape p)], data = map (\<lambda>i. hd (row2 p i)) [0..<hd (shape p)]\<rparr>"

definition raw_of :: "'a ndarray \<Rightarrow> 'a ndarray" where
  "raw_of p = \<lparr>shape = [hd (shape p), shape p ! 1 - 1],
               data = concat (map (\<lambda>i. tl (row2 p i)) [0..<hd (shape p)])\<rparr>"

definition label_of :: "fl ndarray \<Rightarrow> nat ndarray" where
  "label_of p = \<lparr>shape = [hd (shape p)],
                 data = map (\<lambda>i. argmax1 (tl (row2 p i))) [0..<hd (shape p)]\<rparr>"

text \<open>A scorer that only records the calls it receives.\<close>

datatype scorer_call = EvalCall "fl ndarray" "nat ndarray" "fl ndarray" | GetResultsCall

definition recording_scorer :: "'r \<Rightarrow> (scorer_call list, 'r) scorer" where
  "recording_scorer r =
    \<lparr>scorer_eval = (\<lambda>calls t l out. calls @ [EvalCall t l out]),
     scorer_get_results = (\<lambda>calls. (r, calls @ [GetResultsCall]))\<rparr>"

text \<open>Concrete arrays for the examples.\<close>

definition example_record :: "fl ndarray" where
  "example_record = \<lparr>shape = [2, 3], data = [Fin 0, Fin 1, Fin 3, Fin 1, Fin 5, Fin 2]\<rparr>"

definition two_column_prediction :: "fl ndarray" where
  "two_column_prediction =
     \<lparr>shape = [3, 2], data = [Fin 0.9, Fin 0.1, Fin 0.4, Fin 0.6, Fin 0.5, Fin 0.5]\<rparr>"

section \<open>Floating-point arithmetic\<close>

text \<open>
  The tensors of the network hold float32 numbers. \<open>round32\<close> is the rounding of a real
  number to float32: to the nearest number with 24 significant bits, a tie to the one
  whose last bit is even, with the exponent of the leading bit between \<open>-126\<close> and \<open>127\<close>
  (below, the subnormal numbers are the multiples of \<open>2 powr - 149\<close>), and to an infinity
  when the rounded magnitude reaches \<open>2 ^ 128\<close>. \<open>rne\<close> rounds a real to the nearest
  integer, a tie to the even one. It is the conversion that \<open>.float()\<close> applies to every
  element of a tensor of integers or of doubles.
\<close>

definition rne :: "real \<Rightarrow> int" where
  "rne x =
    (let f = \<lfloor>x\<rfloor>; d = x - of_int f
     in if d < 1 / 2 then f else if 1 / 2 < d then f + 1 else if even f then f else f + 1)"

definition round32 :: "real \<Rightarrow> fl" where
  "round32 x =
    (if x = 0 then Fin 0
     else
       (let e = max \<lfloor>log 2 \<bar>x\<bar>\<rfloor> (- 126);
            q = 2 powr (of_int e - 23);
            r = of_int (rne (x / q)) * q
        in if 2 ^ 128 \<le> \<bar>r\<bar> then (if 0 < x then PInf else NInf) else Fin r))"

fun fl_round32 :: "fl \<Rightarrow> fl" where
  "fl_round32 (Fin v) = round32 v"
| "fl_round32 NaN = NaN"
| "fl_round32 NInf = NInf"
| "fl_round32 PInf = PInf"

text \<open>
  The arithmetic of IEEE 754: on finite values the exact result, rounded; on the special
  values as the standard has it. Signed zeros are not modelled: a division by zero takes
  the zero as positive. The exponential and the sigmoid are taken to be correctly rounded
  (the library's are accurate to about the last bit). \<open>fl_max\<close> is the maximum that
  propagates \<open>NaN\<close>. \<open>fl_sum\<close> adds from the left, starting at zero.
\<close>

fun fl_add :: "fl \<Rightarrow> fl \<Rightarrow> fl" where
  "fl_add NaN _ = NaN"
| "fl_add _ NaN = NaN"
| "fl_add PInf NInf = NaN"
| "fl_add NInf PInf = NaN"
| "fl_add PInf _ = PInf"
| "fl_add _ PInf = PInf"
| "fl_add NInf _ = NInf"
| "fl_add _ NInf = NInf"
| "fl_add (Fin a) (Fin b) = round32 (a + b)"

fun fl_neg :: "fl \<Rightarrow> fl" where
  "fl_neg NaN = NaN"
| "fl_neg NInf = PInf"
| "fl_neg PInf = NInf"
| "fl_neg (Fin a) = Fin (- a)"

definition fl_sub :: "fl \<Rightarrow> fl \<Rightarrow> fl" where
  "fl_sub a b = fl_add a (fl_neg b)"

definition fl_max :: "fl \<Rightarrow> fl \<Rightarrow> fl" where
  "fl_max a b = (if a = NaN \<or> b = NaN then NaN else if fl_lt a b then b else a)"

definition inf_of_sign :: "bool \<Rightarrow> fl" where
  "inf_of_sign positive = (if positive then PInf else NInf)"

fun fl_mul :: "fl \<Rightarrow> fl \<Rightarrow> fl" where
  "fl_mul NaN _ = NaN"
| "fl_mul _ NaN = NaN"
| "fl_mul (Fin a) (Fin b) = round32 (a * b)"
| "fl_mul (Fin a) PInf = (if a = 0 then NaN else inf_of_sign (0 < a))"
| "fl_mul (Fin a) NInf = (if a = 0 then NaN else inf_of_sign (a < 0))"
| "fl_mul PInf (Fin b) = (if b = 0 then NaN else inf_of_sign (0 < b))"
| "fl_mul NInf (Fin b) = (if b = 0 then NaN else inf_of_sign (b < 0))"
| "fl_mul PInf PInf = PInf"
| "fl_mul PInf NInf = NInf"
| "fl_mul NInf PInf = NInf"
| "fl_mul NInf NInf = PInf"

fun fl_div :: "fl \<Rightarrow> fl \<Rightarrow> fl" where
  "fl_div NaN _ = NaN"
| "fl_div _ NaN = NaN"
| "fl_div (Fin a) (Fin b) =
     (if b = 0 then (if a = 0 then NaN else inf_of_sign (0 < a)) else round32 (a / b))"
| "fl_div (Fin a) _ = Fin 0"
| "fl_div PInf (Fin b) = inf_of_sign (0 \<le> b)"
| "fl_div NInf (Fin b) = inf_of_sign (b < 0)"
| "fl_div _ _ = NaN"

fun fl_exp :: "fl \<Rightarrow> fl" where
  "fl_exp NaN = NaN"
| "fl_exp NInf = Fin 0"
| "fl_exp PInf = PInf"
| "fl_exp (Fin a) = round32 (exp a)"

fun fl_relu :: "fl \<Rightarrow> fl" where
  "fl_relu NaN = NaN"
| "fl_relu NInf = Fin 0"
| "fl_relu PInf = PInf"
| "fl_relu (Fin a) = Fin (max 0 a)"

fun fl_sigmoid :: "fl \<Rightarrow> fl" where
  "fl_sigmoid NaN = NaN"
| "fl_sigmoid NInf = Fin 0"
| "fl_sigmoid PInf = Fin 1"
| "fl_sigmoid (Fin a) = round32 (1 / (1 + exp (- a)))"

definition fl_sum :: "fl list \<Rightarrow> fl" where
  "fl_sum xs = foldl fl_add (Fin 0) xs"

section \<open>Tensor operations of the training runtime\<close>

text \<open>
  What the network uses of the library, on arrays of any rank. A linear layer is the
  \<open>nn.Linear\<close> module: its two sizes, its weight matrix (\<open>out_features\<close> rows of
  \<open>in_features\<close> entries) and its bias. \<open>linear_apply\<close> is the call of the module: it acts
  on the last dimension and raises when that is not \<open>in_features\<close>; the products of a row
  are added from the left, where the library is free to add them in another order. \<open>relu\<close> and \<open>sigmoid\<close>
  act on every element. \<open>softmax_dim1\<close> is \<open>F.softmax(x, dim=1)\<close>: along dimension 1 the
  maximum is subtracted from every entry, and the exponential of the difference is divided
  by the sum of these exponentials (\<open>softmax1\<close>); it raises on an array without that
  dimension. The sum is taken from the left and the quotient is one division, where the
  library is free to add in another order and to multiply by the reciprocal of the sum.
\<close>

record linear =
  in_features :: nat
  out_features :: nat
  weight :: "fl list list"
  bias :: "fl list"

definition affine :: "linear \<Rightarrow> fl list \<Rightarrow> fl list" where
  "affine l x = map (\<lambda>j. fl_add (fl_sum (map2 fl_mul x (weight l ! j))) (bias l ! j))
                    [0..<out_features l]"

definition linear_apply :: "linear \<Rightarrow> fl ndarray \<Rightarrow> error + fl ndarray" where
  "linear_apply l x =
    (case rev (shape x) of
       [] \<Rightarrow> Inl RuntimeError
     | d # _ \<Rightarrow>
         if d = in_features l then
           Inr \<lparr>shape = butlast (shape x) @ [out_features l],
                data = concat (map (\<lambda>i. affine l (take d (drop (i * d) (data x))))
                                   [0..<prod_list (butlast (shape x))])\<rparr>
         else Inl RuntimeError)"

definition relu :: "fl ndarray \<Rightarrow> fl ndarray" where
  "relu x = x\<lparr>data := map fl_relu (data x)\<rparr>"

definition sigmoid :: "fl ndarray \<Rightarrow> fl ndarray" where
  "sigmoid x = x\<lparr>data := map fl_sigmoid (data x)\<rparr>"

definition softmax1 :: "fl list \<Rightarrow> fl list" where
  "softmax1 xs =
    (case xs of
       [] \<Rightarrow> []
     | x # rest \<Rightarrow>
         (let m = foldl fl_max x rest;
              es = map (\<lambda>z. fl_exp (fl_sub z m)) xs;
              s = fl_sum es
          in map (\<lambda>e. fl_div e s) es))"

definition softmax_dim1 :: "fl ndarray \<Rightarrow> error + fl ndarray" where
  "softmax_dim1 x =
    (case shape x of
       n # m # rest \<Rightarrow>
         (let b = prod_list rest in
          Inr (x\<lparr>data := concat (map (\<lambda>i. concat (map (\<lambda>j. map (\<lambda>k.
                 softmax1 (map (\<lambda>j'. data x ! ((i * m + j') * b + k)) [0..<m]) ! j)
                 [0..<b]) [0..<m])) [0..<n])\<rparr>))
     | _ \<Rightarrow> Inl IndexError)"

text \<open>
  \<open>squeeze\<close> drops the dimensions of size 1. \<open>select_rows a idxs\<close> is \<open>a[idxs]\<close>, the rows
  (entries along dimension 0) of \<open>a\<close> at the given indices. \<open>concatenate\<close> is
  \<open>np.concatenate\<close> along dimension 0: it raises on an empty list and on arrays that are
  zero-dimensional or differ in a later dimension.
\<close>

definition squeeze :: "'a ndarray \<Rightarrow> 'a ndarray" where
  "squeeze x = x\<lparr>shape := filter (\<lambda>d. d \<noteq> 1) (shape x)\<rparr>"

definition select_rows :: "'a ndarray \<Rightarrow> nat list \<Rightarrow> 'a ndarray" where
  "select_rows a idxs =
    (let r = prod_list (tl (shape a))
     in \<lparr>shape = length idxs # tl (shape a),
         data = concat (map (\<lambda>i. take r (drop (i * r) (data a))) idxs)\<rparr>)"

definition concatenate :: "'a ndarray list \<Rightarrow> error + 'a ndarray" where
  "concatenate arrs =
    (case arrs of
       [] \<Rightarrow> Inl ValueError
     | a # rest \<Rightarrow>
         if list_ex (\<lambda>b. shape b = [] \<or> tl (shape b) \<noteq> tl (shape a)) arrs then Inl ValueError
         else Inr \<lparr>shape = sum_list (map (\<lambda>b. hd (shape b)) arrs) # tl (shape a),
                   data = concat (map data arrs)\<rparr>)"

text \<open>
  A tensor of targets holds integers (class indices) or floats (doubles or float32);
  \<open>to_float\<close> is \<open>.float()\<close>, which gives a tensor of float32 of the same shape with every
  element converted.
\<close>

datatype tensor = IntTensor "int ndarray" | FloatTensor "fl ndarray"

fun to_float :: "tensor \<Rightarrow> tensor" where
  "to_float (IntTensor a) =
     FloatTensor \<lparr>shape = shape a, data = map (\<lambda>k. round32 (of_int k)) (data a)\<rparr>"
| "to_float (FloatTensor a) = FloatTensor \<lparr>shape = shape a, data = map fl_round32 (data a)\<rparr>"

fun is_float :: "tensor \<Rightarrow> bool" where
  "is_float (IntTensor a) = False"
| "is_float (FloatTensor a) = True"

fun tensor_rows :: "tensor \<Rightarrow> nat list \<Rightarrow> tensor" where
  "tensor_rows (IntTensor a) idxs = IntTensor (select_rows a idxs)"
| "tensor_rows (FloatTensor a) idxs = FloatTensor (select_rows a idxs)"

fun tensor_shape :: "tensor \<Rightarrow> nat list" where
  "tensor_shape (IntTensor a) = shape a"
| "tensor_shape (FloatTensor a) = shape a"

section \<open>The feed-forward network (models/mlp.py)\<close>

text \<open>
  The run configuration and the hyperparameters, with the fields the network reads. A
  number of layers is a Python integer; sizes are natural numbers.
\<close>

record run_args =
  num_features :: nat
  num_classes :: nat
  objective :: string
  use_gpu :: bool
  epochs :: int
  early_stopping_rounds :: int

record hyper_params =
  hidden_dim :: nat
  n_layers :: int
  learning_rate :: real
  batch_size :: nat

text \<open>
  The network: its configuration, its three groups of layers, and \<open>predictions\<close>, which
  does not exist (\<open>None\<close>) before the first call of \<open>predict\<close>. The device is not
  modelled.
\<close>

record mlp =
  params :: hyper_params
  args :: run_args
  input_layer :: linear
  layers :: "linear list"
  output_layer :: linear
  predictions :: "fl ndarray option"

text \<open>
  \<open>MLP.__init__\<close>. \<open>nn.Linear\<close> draws the initial weights at random: the initializer
  \<open>init\<close> stands for the generator and gives, for the \<open>k\<close>-th layer created, the weights
  and the bias of a layer of the given sizes. \<open>range(n_layers - 1)\<close> is empty for
  \<open>n_layers \<le> 1\<close>.
\<close>

type_synonym initializer = "nat \<Rightarrow> nat \<Rightarrow> nat \<Rightarrow> fl list list \<times> fl list"

definition Linear :: "(nat \<Rightarrow> nat \<Rightarrow> fl list list \<times> fl list) \<Rightarrow> nat \<Rightarrow> nat \<Rightarrow> linear" where
  "Linear init n_in n_out =
     \<lparr>in_features = n_in, out_features = n_out, weight = fst (init n_in n_out),
       bias = snd (init n_in n_out)\<rparr>"

definition MLP_init :: "initializer \<Rightarrow> hyper_params \<Rightarrow> run_args \<Rightarrow> mlp" where
  "MLP_init init ps as =
    (let input_dim = num_features as;
         hidden = hidden_dim ps;
         output_dim = num_classes as;
         n = nat (n_layers ps - 1)
     in \<lparr>params = ps, args = as,
         input_layer = Linear (init 0) input_dim hidden,
         layers = map (\<lambda>k. Linear (init (Suc k)) hidden hidden) [0..<n],
         output_layer = Linear (init (Suc n)) hidden output_dim,
         predictions = None\<rparr>)"

text \<open>\<open>MLP.forward\<close>; \<open>hidden_layers\<close> is its loop over \<open>self.layers\<close>.\<close>

fun hidden_layers :: "linear list \<Rightarrow> fl ndarray \<Rightarrow> error + fl ndarray" where
  "hidden_layers [] x = Inr x"
| "hidden_layers (layer # rest) x =
     (case linear_apply layer x of
        Inl e \<Rightarrow> Inl e
      | Inr y \<Rightarrow> hidden_layers rest (relu y))"

definition forward :: "mlp \<Rightarrow> fl ndarray \<Rightarrow> error + fl ndarray" where
  "forward self x =
    (case linear_apply (input_layer self) x of
       Inl e \<Rightarrow> Inl e
     | Inr x1 \<Rightarrow>
         (case hidden_layers (layers self) (relu x1) of
            Inl e \<Rightarrow> Inl e
          | Inr x2 \<Rightarrow>
              (case linear_apply (output_layer self) x2 of
                 Inl e \<Rightarrow> Inl e
               | Inr x3 \<Rightarrow>
                   if objective (args self) = ''classification'' then softmax_dim1 x3
                   else Inr x3)))"

section \<open>Checkpoints\<close>

text \<open>
  The state dictionary holds the parameters of all layers. The file system is a map
  from paths to saved state dictionaries. \<open>get_output_path\<close> (utils/io_utils.py) is not
  among the sources at hand and is a field of the runtime below. \<open>load_state_dict\<close>
  is strict: it raises unless the saved layers are those of the network in number and
  sizes. \<open>torch.load\<close> raises when there is no file.
\<close>

record state_dict =
  sd_input_layer :: linear
  sd_layers :: "linear list"
  sd_output_layer :: linear

type_synonym files = "string \<Rightarrow> state_dict option"

definition get_state_dict :: "mlp \<Rightarrow> state_dict" where
  "get_state_dict self =
    \<lparr>sd_input_layer = input_layer self, sd_layers = layers self,
     sd_output_layer = output_layer self\<rparr>"

definition same_shape :: "linear \<Rightarrow> linear \<Rightarrow> bool" where
  "same_shape l l' = (in_features l = in_features l' \<and> out_features l = out_features l')"

definition load_state_dict :: "mlp \<Rightarrow> state_dict \<Rightarrow> error + mlp" where
  "load_state_dict self sd =
    (if same_shape (input_layer self) (sd_input_layer sd) \<and>
        list_all2 same_shape (layers self) (sd_layers sd) \<and>
        same_shape (output_layer self) (sd_output_layer sd)
     then Inr (self\<lparr>input_layer := sd_input_layer sd, layers := sd_layers sd,
                     output_layer := sd_output_layer sd\<rparr>)
     else Inl RuntimeError)"

text \<open>
  What \<open>fit\<close> takes from outside the sources at hand: the library's loss functions
  (\<open>loss_fn k out target\<close> is the module of kind \<open>k\<close> applied to an output and a target;
  it may raise), the optimizer (its creation, and \<open>optimizer_step\<close> for \<open>zero_grad\<close>,
  \<open>backward\<close> and \<open>step\<close> on the loss of one batch, which gives the new optimizer state
  and the new parameters), and the path resolver.
\<close>

datatype loss_kind = MSELoss | CrossEntropyLoss | BCEWithLogitsLoss

record 'o runtime =
  loss_fn :: "loss_kind \<Rightarrow> fl ndarray \<Rightarrow> tensor \<Rightarrow> error + fl"
  new_optimizer :: "mlp \<Rightarrow> real \<Rightarrow> 'o"
  optimizer_step :: "'o \<Rightarrow> mlp \<Rightarrow> loss_kind \<Rightarrow> fl ndarray \<times> tensor \<Rightarrow> 'o \<times> state_dict"
  get_output_path :: "run_args \<Rightarrow> string \<Rightarrow> string \<Rightarrow> string \<Rightarrow> string \<Rightarrow> string"

definition save_model :: "'o runtime \<Rightarrow> mlp \<Rightarrow> files \<Rightarrow> string \<Rightarrow> string \<Rightarrow> files" where
  "save_model rt self fs filename_extension directory =
    (let filename = get_output_path rt (args self) directory ''m'' filename_extension ''pt''
     in fs(filename \<mapsto> get_state_dict self))"

definition load_model :: "'o runtime \<Rightarrow> mlp \<Rightarrow> files \<Rightarrow> string \<Rightarrow> string \<Rightarrow> error + mlp" where
  "load_model rt self fs filename_extension directory =
    (let filename = get_output_path rt (args self) directory ''m'' filename_extension ''pt''
     in case fs filename of
          None \<Rightarrow> Inl FileNotFoundError
        | Some state_dict \<Rightarrow> load_state_dict self state_dict)"

section \<open>Training (MLP.fit)\<close>

text \<open>
  The choice of the loss function, with the casts of the targets.
\<close>

definition loss_setup :: "string \<Rightarrow> tensor \<Rightarrow> tensor \<Rightarrow> loss_kind \<times> tensor \<times> tensor" where
  "loss_setup obj y y_val =
    (if obj = ''regression'' then (MSELoss, to_float y, to_float y_val)
     else if obj = ''classification'' then (CrossEntropyLoss, y, y_val)
     else (BCEWithLogitsLoss, to_float y, to_float y_val))"

text \<open>
  The loss of one batch: the forward pass, the squeeze for regression and binary, the
  loss function. \<open>validation_loop\<close> is the loop over the validation loader, which adds
  the losses to \<open>val_loss\<close> and counts the batches in \<open>val_dim\<close>.
\<close>

definition batch_loss ::
  "'o runtime \<Rightarrow> mlp \<Rightarrow> loss_kind \<Rightarrow> fl ndarray \<times> tensor \<Rightarrow> error + fl" where
  "batch_loss rt self loss_func batch =
    (case forward self (fst batch) of
       Inl e \<Rightarrow> Inl e
     | Inr out \<Rightarrow>
         loss_fn rt loss_func
           (if objective (args self) = ''regression'' \<or> objective (args self) = ''binary''
            then squeeze out else out)
           (snd batch))"

fun validation_loop ::
  "'o runtime \<Rightarrow> mlp \<Rightarrow> loss_kind \<Rightarrow> fl \<Rightarrow> nat \<Rightarrow> (fl ndarray \<times> tensor) list
     \<Rightarrow> error + fl \<times> nat" where
  "validation_loop rt self loss_func val_loss val_dim [] = Inr (val_loss, val_dim)"
| "validation_loop rt self loss_func val_loss val_dim (batch # rest) =
     (case batch_loss rt self loss_func batch of
        Inl e \<Rightarrow> Inl e
      | Inr l \<Rightarrow> validation_loop rt self loss_func (fl_add val_loss l) (val_dim + 1) rest)"

text \<open>
  The state of a call of \<open>fit\<close>: the network and the optimizer, the files written, the
  lines printed (epoch, step, loss, validation loss), and the two local variables of the
  early stopping. A step of the loop either goes on or returns from \<open>fit\<close>.
\<close>

record 'o fit_state =
  model :: mlp
  optimizer :: 'o
  files :: files
  stdout :: "(nat \<times> nat \<times> fl \<times> fl) list"
  min_val_loss :: fl
  min_val_loss_idx :: int

datatype 'a flow = Continue 'a | Return 'a

definition current_idx :: "nat \<Rightarrow> nat \<Rightarrow> int" where
  "current_idx i epoch = (int i + 1) * (int epoch + 1)"

text \<open>
  The body of the inner loop for batch \<open>i\<close> of epoch \<open>epoch\<close>: the loss of the batch, the
  optimizer's step, the validation loss over the batches the validation loader yields
  this time (\<open>val_loss /= val_dim\<close> divides a Python float by zero when there are none), the
  line printed, the bookkeeping of the best loss, and the test for the early return.
\<close>

definition fit_step ::
  "'o runtime \<Rightarrow> loss_kind \<Rightarrow> (fl ndarray \<times> tensor) list \<Rightarrow> 'o fit_state \<Rightarrow> nat \<Rightarrow> nat
     \<Rightarrow> fl ndarray \<times> tensor \<Rightarrow> error + 'o fit_state flow" where
  "fit_step rt loss_func val_batches st epoch i batch =
    (case batch_loss rt (model st) loss_func batch of
       Inl e \<Rightarrow> Inl e
     | Inr loss \<Rightarrow>
         (case optimizer_step rt (optimizer st) (model st) loss_func batch of
            (opt, sd) \<Rightarrow>
              (let self = (model st)\<lparr>input_layer := sd_input_layer sd, layers := sd_layers sd,
                                      output_layer := sd_output_layer sd\<rparr>
               in case validation_loop rt self loss_func (Fin 0) 0 val_batches of
                    Inl e \<Rightarrow> Inl e
                  | Inr (val_sum, val_dim) \<Rightarrow>
                      if val_dim = 0 then Inl ZeroDivisionError
                      else
                        (let val_loss = fl_div val_sum (Fin (real val_dim));
                             idx = current_idx i epoch;
                             st1 = st\<lparr>model := self, optimizer := opt,
                                      stdout := stdout st @ [(epoch, i, loss, val_loss)]\<rparr>;
                             st2 = (if fl_lt val_loss (min_val_loss st1)
                                    then st1\<lparr>min_val_loss := val_loss, min_val_loss_idx := idx,
                                             files := save_model rt self (files st1) ''best'' ''tmp''\<rparr>
                                    else st1)
                         in if min_val_loss_idx st2 + early_stopping_rounds (args self) < idx
                            then Inr (Return st2) else Inr (Continue st2)))))"

text \<open>
  A data loader with \<open>shuffle=True\<close> draws a new order of the row indices every time it
  is iterated and yields the rows in chunks of the batch size, the last one shorter. The
  orders drawn are arguments of \<open>fit\<close> and \<open>predict\<close>: \<open>train_order epoch\<close> for the
  training loader in that epoch, \<open>val_order epoch i\<close> for the validation loader at that
  step. The prefetch workers do not change what is yielded.
\<close>

function chunks :: "nat \<Rightarrow> 'a list \<Rightarrow> 'a list list" where
  "chunks n xs = (if n = 0 \<or> xs = [] then [] else take n xs # chunks n (drop n xs))"
  by pat_completeness auto
termination
  by (relation "measure (\<lambda>(n, xs). length xs)") auto

declare chunks.simps [simp del]

definition make_batches ::
  "nat \<Rightarrow> fl ndarray \<Rightarrow> tensor \<Rightarrow> nat list \<Rightarrow> (fl ndarray \<times> tensor) list" where
  "make_batches bs X y order = map (\<lambda>idxs. (select_rows X idxs, tensor_rows y idxs)) (chunks bs order)"

text \<open>The two loops of \<open>fit\<close>; \<open>return\<close> leaves both.\<close>

fun batch_loop ::
  "'o runtime \<Rightarrow> loss_kind \<Rightarrow> (nat \<Rightarrow> nat \<Rightarrow> (fl ndarray \<times> tensor) list) \<Rightarrow> 'o fit_state \<Rightarrow> nat
     \<Rightarrow> (nat \<times> (fl ndarray \<times> tensor)) list \<Rightarrow> error + 'o fit_state flow" where
  "batch_loop rt loss_func val_loader st epoch [] = Inr (Continue st)"
| "batch_loop rt loss_func val_loader st epoch ((i, batch) # rest) =
     (case fit_step rt loss_func (val_loader epoch i) st epoch i batch of
        Inl e \<Rightarrow> Inl e
      | Inr (Return st') \<Rightarrow> Inr (Return st')
      | Inr (Continue st') \<Rightarrow> batch_loop rt loss_func val_loader st' epoch rest)"

fun epoch_loop ::
  "'o runtime \<Rightarrow> loss_kind \<Rightarrow> (nat \<Rightarrow> (fl ndarray \<times> tensor) list)
     \<Rightarrow> (nat \<Rightarrow> nat \<Rightarrow> (fl ndarray \<times> tensor) list) \<Rightarrow> 'o fit_state \<Rightarrow> nat list
     \<Rightarrow> error + 'o fit_state" where
  "epoch_loop rt loss_func train_loader val_loader st [] = Inr st"
| "epoch_loop rt loss_func train_loader val_loader st (epoch # rest) =
     (case batch_loop rt loss_func val_loader st epoch (enumerate 0 (train_loader epoch)) of
        Inl e \<Rightarrow> Inl e
      | Inr (Return st') \<Rightarrow> Inr st'
      | Inr (Continue st') \<Rightarrow> epoch_loop rt loss_func train_loader val_loader st' rest)"

text \<open>
  \<open>TensorDataset\<close> takes the size of dimension 0 of its tensors, which raises on a
  zero-dimensional tensor, and asserts that they agree. \<open>DataLoader\<close> with \<open>shuffle=True\<close>
  builds a random sampler, which raises on a data set without rows, and a batch sampler,
  which raises on a batch size that is not positive; both raise \<open>ValueError\<close>. The
  conversions of the inputs to float arrays are not modelled: \<open>X\<close> and \<open>X_val\<close> are float
  arrays already.
\<close>

definition TensorDataset :: "nat list \<Rightarrow> nat list \<Rightarrow> error option" where
  "TensorDataset shape0 shape1 =
    (case shape0 of
       [] \<Rightarrow> Some IndexError
     | n # _ \<Rightarrow>
         (case shape1 of
            [] \<Rightarrow> Some IndexError
          | m # _ \<Rightarrow> if n = m then None else Some AssertionError))"

definition DataLoader :: "nat list \<Rightarrow> nat \<Rightarrow> error option" where
  "DataLoader dataset_shape bs = (if hd dataset_shape = 0 \<or> bs = 0 then Some ValueError else None)"

definition initial_state :: "'o runtime \<Rightarrow> mlp \<Rightarrow> files \<Rightarrow> 'o fit_state" where
  "initial_state rt self fs =
    \<lparr>model = self, optimizer = new_optimizer rt self (learning_rate (params self)), files = fs,
     stdout = [], min_val_loss = PInf, min_val_loss_idx = 0\<rparr>"

definition fit ::
  "'o runtime \<Rightarrow> mlp \<Rightarrow> files \<Rightarrow> fl ndarray \<Rightarrow> tensor \<Rightarrow> fl ndarray \<Rightarrow> tensor
     \<Rightarrow> (nat \<Rightarrow> nat list) \<Rightarrow> (nat \<Rightarrow> nat \<Rightarrow> nat list) \<Rightarrow> error + 'o fit_state" where
  "fit rt self fs X y X_val y_val train_order val_order =
    (case loss_setup (objective (args self)) y y_val of
       (loss_func, y, y_val) \<Rightarrow>
         (case TensorDataset (shape X) (tensor_shape y) of
            Some e \<Rightarrow> Inl e
          | None \<Rightarrow>
              (case DataLoader (shape X) (batch_size (params self)) of
                 Some e \<Rightarrow> Inl e
               | None \<Rightarrow>
                   (case TensorDataset (shape X_val) (tensor_shape y_val) of
                      Some e \<Rightarrow> Inl e
                    | None \<Rightarrow>
                        (case DataLoader (shape X_val) (batch_size (params self)) of
                           Some e \<Rightarrow> Inl e
                         | None \<Rightarrow>
                             epoch_loop rt loss_func
                               (\<lambda>epoch. make_batches (batch_size (params self)) X y
                                          (train_order epoch))
                               (\<lambda>epoch i. make_batches (batch_size (params self)) X_val y_val
                                            (val_order epoch i))
                               (initial_state rt self fs)
                               [0..<nat (epochs (args self))])))))"

section \<open>Inference (MLP.predict)\<close>

text \<open>
  \<open>predict_loop\<close> is the loop over the test loader; \<open>order\<close> is the order its sampler
  draws. The result is returned and kept in \<open>self.predictions\<close>; the network returned is
  \<open>self\<close> after the call. The conversion \<open>np.array(X, dtype=np.float)\<close> is not modelled
  (\<open>X\<close> is a float array already); the alias \<open>np.float\<close> exists in NumPy before version
  1.24 only.
\<close>

fun predict_loop :: "mlp \<Rightarrow> fl ndarray \<Rightarrow> nat list list \<Rightarrow> error + fl ndarray list" where
  "predict_loop self X [] = Inr []"
| "predict_loop self X (idxs # rest) =
     (case forward self (select_rows X idxs) of
        Inl e \<Rightarrow> Inl e
      | Inr preds \<Rightarrow>
          (case predict_loop self X rest of
             Inl e \<Rightarrow> Inl e
           | Inr ps \<Rightarrow>
               Inr ((if objective (args self) = ''binary'' then sigmoid preds else preds) # ps)))"

definition predict ::
  "'o runtime \<Rightarrow> mlp \<Rightarrow> files \<Rightarrow> fl ndarray \<Rightarrow> nat list \<Rightarrow> error + fl ndarray \<times> mlp" where
  "predict rt self fs X order =
    (case load_model rt self fs ''best'' ''tmp'' of
       Inl e \<Rightarrow> Inl e
     | Inr self1 \<Rightarrow>
         if shape X = [] then Inl IndexError
         else
           (case DataLoader (shape X) (batch_size (params self1)) of
              Some e \<Rightarrow> Inl e
            | None \<Rightarrow>
                (case predict_loop self1 X (chunks (batch_size (params self1)) order) of
                   Inl e \<Rightarrow> Inl e
                 | Inr ps \<Rightarrow>
                     (case concatenate ps of
                        Inl e \<Rightarrow> Inl e
                      | Inr p \<Rightarrow> Inr (p, self1\<lparr>predictions := Some p\<rparr>)))))"

section \<open>Vocabulary of the statements\<close>

text \<open>
  The definitions from here on are not translations of the sources: they are the words
  the theorems are stated in.
\<close>

subsection \<open>The forward pass as a list of operations\<close>

text \<open>
  An operation is an affine layer, a ReLU or the softmax; \<open>run_ops\<close> applies a list of
  them from left to right. \<open>affine_layers\<close> are all affine layers in the order of the
  forward pass, and \<open>logits\<close> is the forward pass up to and including the output layer.
\<close>

datatype layer_op = Affine linear | ReLU | Softmax

fun run_op :: "layer_op \<Rightarrow> fl ndarray \<Rightarrow> error + fl ndarray" where
  "run_op (Affine l) x = linear_apply l x"
| "run_op ReLU x = Inr (relu x)"
| "run_op Softmax x = softmax_dim1 x"

fun run_ops :: "layer_op list \<Rightarrow> fl ndarray \<Rightarrow> error + fl ndarray" where
  "run_ops [] x = Inr x"
| "run_ops (op # ops) x = (case run_op op x of Inl e \<Rightarrow> Inl e | Inr y \<Rightarrow> run_ops ops y)"

definition affine_layers :: "mlp \<Rightarrow> linear list" where
  "affine_layers self = input_layer self # layers self @ [output_layer self]"

definition logits :: "mlp \<Rightarrow> fl ndarray \<Rightarrow> error + fl ndarray" where
  "logits self x =
     run_ops ([Affine (input_layer self), ReLU] @
              concat (map (\<lambda>l. [Affine l, ReLU]) (layers self)) @
              [Affine (output_layer self)]) x"

text \<open>
  A chain of layers fits when every layer takes what the one before gives. The tolerance
  of the row sums is a distance to 1 of at most \<open>1e-6\<close>.
\<close>

fun dims_chain :: "nat \<Rightarrow> linear list \<Rightarrow> bool" where
  "dims_chain d [] = True"
| "dims_chain d (l # ls) = (in_features l = d \<and> dims_chain (out_features l) ls)"


text \<open>
  The forward pass on a single row, and the prediction for a row (with the sigmoid for
  the binary objective); a matrix given by its rows; the predictions of one batch.
\<close>

definition forward_row :: "mlp \<Rightarrow> fl list \<Rightarrow> fl list" where
  "forward_row self r =
    (let x1 = map fl_relu (affine (input_layer self) r);
         x2 = fold (\<lambda>layer x. map fl_relu (affine layer x)) (layers self) x1;
         x3 = affine (output_layer self) x2
     in if objective (args self) = ''classification'' then softmax1 x3 else x3)"

definition predict_row :: "mlp \<Rightarrow> fl list \<Rightarrow> fl list" where
  "predict_row self r =
    (if objective (args self) = ''binary'' then map fl_sigmoid (forward_row self r)
     else forward_row self r)"

definition rows_matrix :: "nat \<Rightarrow> nat \<Rightarrow> (nat \<Rightarrow> fl list) \<Rightarrow> fl ndarray" where
  "rows_matrix n m f = \<lparr>shape = [n, m], data = concat (map f [0..<n])\<rparr>"

definition batch_predictions :: "mlp \<Rightarrow> fl ndarray \<Rightarrow> nat list \<Rightarrow> fl ndarray" where
  "batch_predictions self X idxs =
     \<lparr>shape = [length idxs, out_features (output_layer self)],
      data = concat (map (\<lambda>j. predict_row self (row2 X j)) idxs)\<rparr>"

subsection \<open>The steps of fit\<close>

text \<open>
  The schedule is the list of the steps (epoch, batch index, batch) in the order the two
  loops visit them; \<open>run_steps\<close> runs a list of steps and stops at the first that returns.
  \<open>fit_loss_func\<close>, \<open>fit_train_loader\<close>, \<open>fit_val_loader\<close> and \<open>fit_schedule\<close> are the
  loss function, the loaders and the schedule of a call of \<open>fit\<close>; \<open>fit_ready\<close> says that
  the data sets and loaders can be built. \<open>updated_model\<close> is the network after the
  optimizer's step, \<open>val_losses\<close> are the validation losses printed so far and \<open>best_path\<close>
  is the path of the best checkpoint.
\<close>

fun flow_state :: "'a flow \<Rightarrow> 'a" where
  "flow_state (Continue s) = s"
| "flow_state (Return s) = s"

fun is_Return :: "'a flow \<Rightarrow> bool" where
  "is_Return (Continue s) = False"
| "is_Return (Return s) = True"

definition schedule ::
  "(nat \<Rightarrow> 'b list) \<Rightarrow> nat list \<Rightarrow> (nat \<times> nat \<times> 'b) list" where
  "schedule train_loader es =
     concat (map (\<lambda>epoch. map (Pair epoch) (enumerate 0 (train_loader epoch))) es)"

fun run_steps ::
  "'o runtime \<Rightarrow> loss_kind \<Rightarrow> (nat \<Rightarrow> nat \<Rightarrow> (fl ndarray \<times> tensor) list) \<Rightarrow> 'o fit_state
     \<Rightarrow> (nat \<times> nat \<times> (fl ndarray \<times> tensor)) list \<Rightarrow> error + 'o fit_state flow" where
  "run_steps rt loss_func val_loader st [] = Inr (Continue st)"
| "run_steps rt loss_func val_loader st ((epoch, i, batch) # rest) =
     (case fit_step rt loss_func (val_loader epoch i) st epoch i batch of
        Inl e \<Rightarrow> Inl e
      | Inr (Return st') \<Rightarrow> Inr (Return st')
      | Inr (Continue st') \<Rightarrow> run_steps rt loss_func val_loader st' rest)"

definition val_losses :: "'o fit_state \<Rightarrow> fl list" where
  "val_losses st = map (\<lambda>(epoch, i, loss, val_loss). val_loss) (stdout st)"

definition best_path :: "'o runtime \<Rightarrow> mlp \<Rightarrow> string" where
  "best_path rt self = get_output_path rt (args self) ''tmp'' ''m'' ''best'' ''pt''"

definition fit_loss_func :: "mlp \<Rightarrow> tensor \<Rightarrow> tensor \<Rightarrow> loss_kind" where
  "fit_loss_func self y y_val = fst (loss_setup (objective (args self)) y y_val)"

definition fit_train_loader ::
  "mlp \<Rightarrow> fl ndarray \<Rightarrow> tensor \<Rightarrow> tensor \<Rightarrow> (nat \<Rightarrow> nat list) \<Rightarrow> nat \<Rightarrow> (fl ndarray \<times> tensor) list" where
  "fit_train_loader self X y y_val train_order epoch =
     make_batches (batch_size (params self)) X
       (fst (snd (loss_setup (objective (args self)) y y_val))) (train_order epoch)"

definition fit_val_loader ::
  "mlp \<Rightarrow> fl ndarray \<Rightarrow> tensor \<Rightarrow> tensor \<Rightarrow> (nat \<Rightarrow> nat \<Rightarrow> nat list) \<Rightarrow> nat \<Rightarrow> nat
     \<Rightarrow> (fl ndarray \<times> tensor) list" where
  "fit_val_loader self X_val y y_val val_order epoch i =
     make_batches (batch_size (params self)) X_val
       (snd (snd (loss_setup (objective (args self)) y y_val))) (val_order epoch i)"

definition fit_schedule ::
  "mlp \<Rightarrow> fl ndarray \<Rightarrow> tensor \<Rightarrow> tensor \<Rightarrow> (nat \<Rightarrow> nat list)
     \<Rightarrow> (nat \<times> nat \<times> (fl ndarray \<times> tensor)) list" where
  "fit_schedule self X y y_val train_order =
     schedule (fit_train_loader self X y y_val train_order) [0..<nat (epochs (args self))]"

definition fit_ready :: "mlp \<Rightarrow> fl ndarray \<Rightarrow> tensor \<Rightarrow> fl ndarray \<Rightarrow> tensor \<Rightarrow> bool" where
  "fit_ready self X y X_val y_val =
    (case loss_setup (objective (args self)) y y_val of
       (loss_func, y', y_val') \<Rightarrow>
         TensorDataset (shape X) (tensor_shape y') = None \<and>
         DataLoader (shape X) (batch_size (params self)) = None \<and>
         TensorDataset (shape X_val) (tensor_shape y_val') = None \<and>
         DataLoader (shape X_val) (batch_size (params self)) = None)"

definition updated_model :: "'o runtime \<Rightarrow> loss_kind \<Rightarrow> 'o fit_state \<Rightarrow> fl ndarray \<times> tensor \<Rightarrow> mlp" where
  "updated_model rt lf st batch =
    (let sd = snd (optimizer_step rt (optimizer st) (model st) lf batch)
     in (model st)\<lparr>input_layer := sd_input_layer sd, layers := sd_layers sd,
                     output_layer := sd_output_layer sd\<rparr>)"

text \<open>
  The strict running minimum: \<open>strict_min\<close> is one comparison of the loop,
  \<open>running_min vs m\<close> says that \<open>m\<close> is not \<open>NaN\<close>, is below every loss of \<open>vs\<close> that is not
  \<open>NaN\<close>, and is positive infinity or one of the losses. \<open>fit_inv\<close> is the invariant of
  the loop.
\<close>

definition strict_min :: "fl \<Rightarrow> fl \<Rightarrow> fl" where
  "strict_min m v = (if fl_lt v m then v else m)"

definition running_min :: "fl list \<Rightarrow> fl \<Rightarrow> bool" where
  "running_min vs m =
    (m \<noteq> NaN \<and> list_all (\<lambda>v. v = NaN \<or> fl_le m v) vs \<and> (m = PInf \<or> m \<in> set vs))"

definition fit_inv :: "'o runtime \<Rightarrow> mlp \<Rightarrow> 'o fit_state \<Rightarrow> bool" where
  "fit_inv rt self st =
    (args (model st) = args self \<and>
     min_val_loss st = foldl strict_min PInf (val_losses st) \<and>
     running_min (val_losses st) (min_val_loss st) \<and>
     ((\<exists>v\<in>set (val_losses st). fl_lt v PInf) \<longrightarrow> best_path rt self \<in> dom (files st)))"

section \<open>Examples\<close>

text \<open>
  Small networks, data and runtimes for the examples: networks with all weights zero
  (\<open>zero_init\<close>) or one (\<open>ones_init\<close>) or with rows of weights \<open>1\<close> and \<open>-1\<close> in turn
  (\<open>signed_init\<close>) or \<open>2 ^ 64\<close> and \<open>- (2 ^ 64)\<close> in turn (\<open>big_init\<close>), a runtime
  whose loss is a constant (\<open>const_rt\<close>) and one whose loss is the sum of the output it
  is given (\<open>probe_rt\<close>); neither changes the weights.
\<close>

definition zero_init :: initializer where
  "zero_init k n_in n_out = (replicate n_out (replicate n_in (Fin 0)), replicate n_out (Fin 0))"

definition ones_init :: initializer where
  "ones_init k n_in n_out = (replicate n_out (replicate n_in (Fin 1)), replicate n_out (Fin 0))"

definition signed_init :: initializer where
  "signed_init k n_in n_out =
     (map (\<lambda>j. replicate n_in (Fin (if even j then 1 else - 1))) [0..<n_out],
      replicate n_out (Fin 0))"


definition ex_params :: hyper_params where
  "ex_params = \<lparr>hidden_dim = 2, n_layers = 2, learning_rate = 1 / 1000, batch_size = 64\<rparr>"

definition ex_args :: "string \<Rightarrow> run_args" where
  "ex_args ob =
     \<lparr>num_features = 2, num_classes = 2, objective = ob, use_gpu = False, epochs = 5,
      early_stopping_rounds = 20\<rparr>"

definition signed_mlp :: "string \<Rightarrow> nat \<Rightarrow> mlp" where
  "signed_mlp ob classes =
     MLP_init signed_init ex_params
       \<lparr>num_features = 2, num_classes = classes, objective = ob, use_gpu = False, epochs = 5,
        early_stopping_rounds = 20\<rparr>"


definition signed_input :: "fl ndarray" where
  "signed_input = \<lparr>shape = [2, 2], data = [Fin 1, Fin 2, Fin 2, Fin 1]\<rparr>"


definition int_targets :: tensor where
  "int_targets = IntTensor \<lparr>shape = [3], data = [1, 2, 3]\<rparr>"

definition tiny_args :: run_args where
  "tiny_args = \<lparr>num_features = 1, num_classes = 1, objective = ''regression'', use_gpu = False,
                 epochs = 2, early_stopping_rounds = 0\<rparr>"

definition tiny_params :: hyper_params where
  "tiny_params = \<lparr>hidden_dim = 1, n_layers = 1, learning_rate = 1 / 1000, batch_size = 1\<rparr>"

definition tiny_mlp :: mlp where
  "tiny_mlp = MLP_init zero_init tiny_params tiny_args"

definition const_rt :: "fl \<Rightarrow> unit runtime" where
  "const_rt v =
    \<lparr>loss_fn = (\<lambda>k out t. Inr v),
     new_optimizer = (\<lambda>self lr. ()),
     optimizer_step = (\<lambda>opt self k batch. ((), get_state_dict self)),
     get_output_path = (\<lambda>a directory filename extension file_type.
        directory @ ''/'' @ filename @ extension @ ''.'' @ file_type)\<rparr>"

definition probe_rt :: "unit runtime" where
  "probe_rt =
    \<lparr>loss_fn = (\<lambda>k out t. Inr (fl_sum (data out))),
     new_optimizer = (\<lambda>self lr. ()),
     optimizer_step = (\<lambda>opt self k batch. ((), get_state_dict self)),
     get_output_path = (\<lambda>a directory filename extension file_type.
        directory @ ''/'' @ filename @ extension @ ''.'' @ file_type)\<rparr>"

definition tiny_X :: "fl ndarray" where
  "tiny_X = \<lparr>shape = [3, 1], data = [Fin 1, Fin 2, Fin 3]\<rparr>"

definition tiny_y :: tensor where
  "tiny_y = FloatTensor \<lparr>shape = [3], data = [Fin 1, Fin 2, Fin 3]\<rparr>"

definition tiny_X_val :: "fl ndarray" where
  "tiny_X_val = \<lparr>shape = [1, 1], data = [Fin 0]\<rparr>"

definition tiny_y_val :: tensor where
  "tiny_y_val = FloatTensor \<lparr>shape = [1], data = [Fin 0]\<rparr>"

definition tiny_batch :: "real \<Rightarrow> fl ndarray \<times> tensor" where
  "tiny_batch v = (\<lparr>shape = [1, 1], data = [Fin v]\<rparr>, FloatTensor \<lparr>shape = [1], data = [Fin v]\<rparr>)"

definition tiny_state :: "(nat \<times> nat \<times> fl \<times> fl) list \<Rightarrow> unit fit_state" where
  "tiny_state out =
    \<lparr>model = tiny_mlp, optimizer = (),
     files = [''tmp/mbest.pt'' \<mapsto> get_state_dict tiny_mlp],
     stdout = out, min_val_loss = Fin 1, min_val_loss_idx = 1\<rparr>"

definition inf_state :: "unit fit_state" where
  "inf_state =
    \<lparr>model = tiny_mlp, optimizer = (), files = Map.empty, stdout = [(0, 0, PInf, PInf)],
     min_val_loss = PInf, min_val_loss_idx = 0\<rparr>"

definition id_mlp :: mlp where
  "id_mlp = MLP_init ones_init
     \<lparr>hidden_dim = 1, n_layers = 1, learning_rate = 1 / 1000, batch_size = 2\<rparr>
     \<lparr>num_features = 1, num_classes = 1, objective = ''regression'', use_gpu = False,
      epochs = 1, early_stopping_rounds = 0\<rparr>"

definition id_files :: files where
  "id_files = [''tmp/mbest.pt'' \<mapsto> get_state_dict id_mlp]"

definition shuffled_predictions :: "fl ndarray" where
  "shuffled_predictions = \<lparr>shape = [3, 1], data = [Fin 3, Fin 1, Fin 2]\<rparr>"

section \<open>Properties of the registry\<close>

lemma str2model_known:
  "(name, cls) \<in> set registry_table \<Longrightarrow> str2model name = Inr cls"
  unfolding registry_table_def set_simps insert_iff empty_iff prod.inject
  by (elim disjE conjE FalseE; simp add: str2model_def)

lemma str2model_unknown:
  "m \<notin> fst ` set registry_table \<Longrightarrow>
     str2model m = Inl (NotImplementedError (''Model \"'' @ m @ ''\" not yet implemented''))"
  by (simp add: registry_table_def str2model_def)

text \<open>
  Claim C6. Every enumerated identifier resolves to the implementation of that name, and
  every other string \<open>m\<close> fails with a not-implemented error whose message is
  \<open>Model "m" not yet implemented\<close>, with \<open>m\<close> embedded verbatim.
\<close>

theorem str2model_registry:
  "(\<forall>name cls. (name, cls) \<in> set registry_table \<longrightarrow> str2model name = Inr cls) \<and>
   (\<forall>m. m \<notin> fst ` set registry_table \<longrightarrow>
      str2model m = Inl (NotImplementedError (''Model \"'' @ m @ ''\" not yet implemented'')))"
  using str2model_known str2model_unknown by blast

theorem str2model_registry_witness:
  "(''KNN'', KNN) \<in> set registry_table \<and> str2model ''KNN'' = Inr KNN \<and>
   (''XGBoost'', XGBoost) \<in> set registry_table \<and> str2model ''XGBoost'' = Inr XGBoost \<and>
   ''nonexistent-model'' \<notin> fst ` set registry_table \<and>
   str2model ''nonexistent-model'' =
     Inl (NotImplementedError ''Model \"nonexistent-model\" not yet implemented'')"
proof -
  have k: "(''KNN'', KNN) \<in> set registry_table"
    by (simp add: registry_table_def)
  have x: "(''XGBoost'', XGBoost) \<in> set registry_table"
    by (simp add: registry_table_def)
  have n: "''nonexistent-model'' \<notin> fst ` set registry_table"
    by (simp add: registry_table_def)
  from str2model_registry have
    a: "\<And>name cls. (name, cls) \<in> set registry_table \<Longrightarrow> str2model name = Inr cls" and
    b: "\<And>m. m \<notin> fst ` set registry_table \<Longrightarrow>
          str2model m = Inl (NotImplementedError (''Model \"'' @ m @ ''\" not yet implemented''))"
    by blast+
  have c: "str2model ''nonexistent-model'' =
     Inl (NotImplementedError ''Model \"nonexistent-model\" not yet implemented'')"
    using b [OF n] by simp
  show ?thesis
    by (intro conjI k x n a [OF k] a [OF x] c)
qed

section \<open>Properties of array indexing\<close>

lemma block_bound: "i < n \<Longrightarrow> i * m + m \<le> n * (m::nat)"
  by (metis Suc_leI mult_Suc mult_le_mono1 add.commute)

lemma length_row2:
  "shape p = [n, m] \<Longrightarrow> length (data p) = n * m \<Longrightarrow> i < n \<Longrightarrow> length (row2 p i) = m"
  using block_bound [of i n m] by (simp add: row2_def)

lemma row2_nth:
  assumes "shape p = [n, m]" "length (data p) = n * m" "i < n" "j < m"
  shows "row2 p i ! j = at2 p i j"
  using assms block_bound [of i n m] by (simp add: row2_def at2_def)

lemma index0_truth:
  assumes "shape p = [n, m]" "length (data p) = n * m" "0 < m"
  shows "index_axis1 p 0 = Inr (truth_of p)"
proof -
  have "take (Suc 0) (drop (i * m) (data p)) = [hd (row2 p i)]" if "i < n" for i
  proof -
    have "i * m < length (data p)" using block_bound [of i n m] that assms by simp
    then show ?thesis using assms
      by (simp add: row2_def take_Suc_conv_app_nth hd_drop_conv_nth)
  qed
  then have "concat (map (\<lambda>i. take (Suc 0) (drop (i * m) (data p))) [0..<n])
      = map (\<lambda>i. hd (row2 p i)) [0..<n]"
    by (induction n) auto
  then show ?thesis using assms by (simp add: index_axis1_def truth_of_def)
qed

lemma slice1_raw:
  assumes "shape p = [n, m]" "0 < m"
  shows "slice_axis1_from p 1 = Inr (raw_of p)"
proof -
  have "take (m - Suc 0) (drop (Suc (i * m)) (data p)) = tl (row2 p i)" for i
    using assms by (simp add: row2_def tl_take tl_drop drop_Suc)
  then show ?thesis using assms
    by (simp add: slice_axis1_from_def raw_of_def min_def)
qed

lemma nth_concat_blocks:
  "(\<And>i. i < n \<Longrightarrow> length (f i) = k) \<Longrightarrow> i < n \<Longrightarrow> j < k \<Longrightarrow>
     concat (map f [0..<n]) ! (i * k + j) = f i ! j"
proof (induction n)
  case 0
  then show ?case by simp
next
  case (Suc n)
  have len: "length (concat (map f [0..<n])) = n * k"
    using Suc.prems(1) by (induction n) (auto simp: add.commute)
  show ?case
  proof (cases "i < n")
    case True
    then have "i * k + j < n * k" using block_bound [of i n k] Suc.prems(3) by linarith
    then show ?thesis using Suc True len by (simp add: nth_append)
  next
    case False
    then have "i = n" using Suc.prems(2) by simp
    then show ?thesis using len by (simp add: nth_append)
  qed
qed

lemma argmax_label:
  assumes "shape p = [n, m]" "length (data p) = n * m" "2 \<le> m"
  shows "argmax_axis1 (raw_of p) = Inr (label_of p)"
proof -
  have rows: "map (\<lambda>j. concat (map (\<lambda>i. tl (row2 p i)) [0..<n]) ! (i * (m - Suc 0) + j)) [0..<m - Suc 0]
      = tl (row2 p i)" if "i < n" for i
  proof -
    have l: "\<And>i. i < n \<Longrightarrow> length (tl (row2 p i)) = m - Suc 0"
      using length_row2 [OF assms(1,2)] by simp
    show ?thesis
      using nth_concat_blocks [of n "\<lambda>i. tl (row2 p i)" "m - Suc 0" i, OF l that] l [OF that]
      by (simp add: list_eq_iff_nth_eq)
  qed
  then have "map (\<lambda>i. argmax1 (map (\<lambda>j. concat (map (\<lambda>i. tl (row2 p i)) [0..<n]) ! (i * (m - Suc 0) + j)) [0..<m - Suc 0])) [0..<n]
      = map (\<lambda>i. argmax1 (tl (row2 p i))) [0..<n]"
    by simp
  then show ?thesis using assms
    by (simp add: argmax_axis1_def raw_of_def label_of_def o_def)
qed

lemma index_axis1_column:
  assumes "shape p = [n, m]" "length (data p) = n * m" "k < m"
    and "j = int k \<or> j = int k - int m"
  shows "index_axis1 p j = Inr \<lparr>shape = [n], data = map (\<lambda>i. at2 p i k) [0..<n]\<rparr>"
proof -
  have "take (Suc 0) (drop (i * m + k) (data p)) = [at2 p i k]" if "i < n" for i
  proof -
    have "i * m + k < length (data p)" using block_bound [of i n m] that assms by simp
    then show ?thesis using assms
      by (simp add: at2_def take_Suc_conv_app_nth hd_drop_conv_nth)
  qed
  then have c: "concat (map (\<lambda>i. take (Suc 0) (drop (i * m + k) (data p))) [0..<n])
      = map (\<lambda>i. at2 p i k) [0..<n]"
    by (induction n) auto
  have "(if j < 0 then int m + j else j) = int k" using assms(3,4) by auto
  then show ?thesis using assms(1,3) c by (simp add: index_axis1_def)
qed

section \<open>Properties of argmax\<close>

lemma fl_le_refl: "x \<noteq> NaN \<Longrightarrow> fl_le x x"
  by (cases x) auto

lemma fl_not_le: "x \<noteq> NaN \<Longrightarrow> y \<noteq> NaN \<Longrightarrow> \<not> fl_le x y \<Longrightarrow> fl_lt y x"
  by (cases x; cases y) auto

lemma fl_le_lt_trans: "fl_le x y \<Longrightarrow> fl_lt y z \<Longrightarrow> fl_lt x z"
  by (cases x; cases y; cases z) auto

lemma fl_lt_le: "fl_lt x y \<Longrightarrow> fl_le x y"
  by (cases x; cases y) auto

lemma argmax_scan_first_max:
  assumes "NaN \<notin> set ys" "NaN \<notin> set xs" "length ys = i" "max_ind < i" "ys ! max_ind = mp"
    and "\<forall>j<i. fl_le (ys ! j) mp" "\<forall>j<max_ind. fl_lt (ys ! j) mp"
  shows "argmax_scan max_ind mp i xs < length (ys @ xs) \<and>
         (\<forall>j<length (ys @ xs). fl_le ((ys @ xs) ! j) ((ys @ xs) ! argmax_scan max_ind mp i xs)) \<and>
         (\<forall>j<argmax_scan max_ind mp i xs. fl_lt ((ys @ xs) ! j) ((ys @ xs) ! argmax_scan max_ind mp i xs))"
  using assms
proof (induction xs arbitrary: ys i max_ind mp)
  case Nil
  then show ?case by (auto simp: isnan_def)
next
  case (Cons x xs)
  have mp: "mp \<noteq> NaN" using Cons.prems by (metis nth_mem)
  have x: "x \<noteq> NaN" using Cons.prems by auto
  have ys': "NaN \<notin> set (ys @ [x])" "NaN \<notin> set xs" "length (ys @ [x]) = Suc i"
    using Cons.prems by auto
  show ?case
  proof (cases "fl_le x mp")
    case True
    have "\<forall>j<Suc i. fl_le ((ys @ [x]) ! j) mp"
      using Cons.prems True by (auto simp: nth_append less_Suc_eq)
    moreover have "\<forall>j<max_ind. fl_lt ((ys @ [x]) ! j) mp"
      using Cons.prems by (auto simp: nth_append)
    moreover have "(ys @ [x]) ! max_ind = mp" "max_ind < Suc i"
      using Cons.prems by (auto simp: nth_append)
    ultimately show ?thesis
      using Cons.IH [of "ys @ [x]" "Suc i" max_ind mp] ys' True mp
      by (simp add: isnan_def)
  next
    case False
    then have lt: "fl_lt mp x" using fl_not_le x mp by blast
    have "\<forall>j<Suc i. fl_le ((ys @ [x]) ! j) x"
      using Cons.prems lt x
      by (auto simp: nth_append less_Suc_eq fl_le_refl intro: fl_lt_le fl_le_lt_trans)
    moreover have "\<forall>j<i. fl_lt ((ys @ [x]) ! j) x"
      using Cons.prems lt by (auto simp: nth_append intro: fl_le_lt_trans)
    moreover have "(ys @ [x]) ! i = x" "i < Suc i"
      using Cons.prems by (auto simp: nth_append)
    ultimately show ?thesis
      using Cons.IH [of "ys @ [x]" "Suc i" i x] ys' False mp
      by (simp add: isnan_def)
  qed
qed

lemma argmax1_first_max:
  assumes "xs \<noteq> []" "NaN \<notin> set xs"
  shows "argmax1 xs < length xs \<and>
         (\<forall>j<length xs. fl_le (xs ! j) (xs ! argmax1 xs)) \<and>
         (\<forall>j<argmax1 xs. fl_lt (xs ! j) (xs ! argmax1 xs))"
proof -
  obtain x rest where xs: "xs = x # rest" using assms(1) by (cases xs) auto
  have "x \<noteq> NaN" using assms xs by auto
  then show ?thesis
    using argmax_scan_first_max [of "[x]" rest 1 0 x] assms(2) xs
    by (simp add: argmax1_def fl_le_refl)
qed

section \<open>Properties of the explainability helper\<close>

lemma gpp_no_columns:
  "predict_fn X = Inr ypred \<Longrightarrow> shape ypred = [n, 0] \<Longrightarrow>
     get_probabilistic_predictions predict_fn X = Inl IndexError"
  by (simp add: get_probabilistic_predictions_def index_axis1_def)

lemma gpp_predict_raises:
  "predict_fn X = Inl e \<Longrightarrow> get_probabilistic_predictions predict_fn X = Inl e"
  by (simp add: get_probabilistic_predictions_def)

text \<open>
  Claim C8. \<open>get_probabilistic_predictions\<close> calls \<open>predict_fn\<close>; a two-dimensional result
  with at least one column is replaced by its last column, a one-dimensional array with
  one entry per row (for two columns: column 1); a result of any other dimension is
  returned unchanged. (A two-dimensional result without columns has no last column: the
  indexing raises, see \<open>gpp_no_columns\<close>.)
\<close>

theorem get_probabilistic_predictions_last_column:
  assumes "predict_fn X = Inr ypred" "wf_ndarray ypred"
  shows "(\<forall>n m. shape ypred = [n, m] \<and> 0 < m \<longrightarrow>
            get_probabilistic_predictions predict_fn X =
              Inr \<lparr>shape = [n], data = map (\<lambda>i. at2 ypred i (m - 1)) [0..<n]\<rparr>)
       \<and> (\<forall>n. shape ypred = [n, 2] \<longrightarrow>
            get_probabilistic_predictions predict_fn X =
              Inr \<lparr>shape = [n], data = map (\<lambda>i. at2 ypred i 1) [0..<n]\<rparr>)
       \<and> (length (shape ypred) \<noteq> 2 \<longrightarrow> get_probabilistic_predictions predict_fn X = Inr ypred)"
proof -
  have a: "get_probabilistic_predictions predict_fn X =
              Inr \<lparr>shape = [n], data = map (\<lambda>i. at2 ypred i (m - 1)) [0..<n]\<rparr>"
    if "shape ypred = [n, m]" "0 < m" for n m
  proof -
    have "index_axis1 ypred (- 1) = Inr \<lparr>shape = [n], data = map (\<lambda>i. at2 ypred i (m - 1)) [0..<n]\<rparr>"
      using that assms(2) by (intro index_axis1_column [where m = m]) (auto simp: wf_ndarray_def)
    then show ?thesis using that assms(1) by (simp add: get_probabilistic_predictions_def)
  qed
  have b: "get_probabilistic_predictions predict_fn X =
              Inr \<lparr>shape = [n], data = map (\<lambda>i. at2 ypred i 1) [0..<n]\<rparr>"
    if "shape ypred = [n, 2]" for n
    using a [OF that] by simp
  have c: "get_probabilistic_predictions predict_fn X = Inr ypred" if "length (shape ypred) \<noteq> 2"
    using that assms(1) by (simp add: get_probabilistic_predictions_def)
  from a b c show ?thesis by blast
qed

theorem get_probabilistic_predictions_last_column_witness:
  "wf_ndarray two_column_prediction \<and>
   get_probabilistic_predictions (\<lambda>_. Inr two_column_prediction) () =
     Inr \<lparr>shape = [3], data = [Fin 0.1, Fin 0.6, Fin 0.5]\<rparr> \<and>
   get_probabilistic_predictions (\<lambda>_. Inr \<lparr>shape = [2], data = [Fin 1, Fin 0]\<rparr>) () =
     Inr \<lparr>shape = [2], data = [Fin 1, Fin 0]\<rparr>"
proof -
  have w: "wf_ndarray two_column_prediction"
    by (simp add: wf_ndarray_def two_column_prediction_def)
  have s: "shape two_column_prediction = [3, 2]"
    by (simp add: two_column_prediction_def)
  have d: "map (\<lambda>i. at2 two_column_prediction i 1) [0..<3] = [Fin 0.1, Fin 0.6, Fin 0.5]"
    by (simp add: at2_def two_column_prediction_def upt_conv_Cons numeral_3_eq_3)
  have w2: "wf_ndarray \<lparr>shape = [2], data = [Fin 1, Fin 0]\<rparr>"
    by (simp add: wf_ndarray_def)
  from get_probabilistic_predictions_last_column [of "\<lambda>_. Inr two_column_prediction" "()" two_column_prediction, OF refl w]
    get_probabilistic_predictions_last_column [of "\<lambda>_. Inr \<lparr>shape = [2], data = [Fin 1, Fin 0]\<rparr>" "()", OF refl w2]
  show ?thesis using w s d by simp
qed

section \<open>Properties of the evaluation driver\<close>

lemma eval_loop_records:
  "\<forall>p\<in>set preds. prediction_record p \<Longrightarrow>
     eval_loop sc s preds =
       Inr (foldl (\<lambda>s p. scorer_eval sc s (truth_of p) (label_of p) (raw_of p)) s preds)"
proof (induction preds arbitrary: s)
  case Nil
  then show ?case by simp
next
  case (Cons p preds)
  from Cons.prems obtain n m where p: "shape p = [n, m]" "2 \<le> m" "length (data p) = n * m"
    by (auto simp: prediction_record_def split: list.splits)
  then have "index_axis1 p 0 = Inr (truth_of p)" "slice_axis1_from p 1 = Inr (raw_of p)"
      "argmax_axis1 (raw_of p) = Inr (label_of p)"
    using index0_truth [of p n m] slice1_raw [of p n m] argmax_label [of p n m] by auto
  then show ?case using Cons by simp
qed

lemma foldl_recording:
  "foldl (\<lambda>s p. scorer_eval (recording_scorer r) s (f p) (g p) (h p)) calls preds =
     calls @ map (\<lambda>p. EvalCall (f p) (g p) (h p)) preds"
  by (induction preds arbitrary: calls) (auto simp: recording_scorer_def)

lemma main_records:
  assumes "get_predictions_from_file cfg = Inr preds"
    and "\<forall>p\<in>set preds. prediction_record p"
    and "get_scorer cfg = (sc, s0)"
  shows "main get_predictions_from_file get_scorer cfg =
           Inr (scorer_get_results sc
                 (foldl (\<lambda>s p. scorer_eval sc s (truth_of p) (label_of p) (raw_of p)) s0 preds))"
  using assms by (simp add: main_def eval_loop_records)

lemma record_columns:
  assumes "prediction_record p" "i < hd (shape p)"
  shows "data (truth_of p) ! i = at2 p i 0"
    and "length (tl (row2 p i)) = shape p ! 1 - 1"
    and "\<forall>j<shape p ! 1 - 1. tl (row2 p i) ! j = at2 p i (Suc j)"
    and "data (label_of p) ! i = argmax1 (tl (row2 p i))"
    and "tl (row2 p i) \<noteq> []"
proof -
  from assms obtain n m where p: "shape p = [n, m]" "2 \<le> m" "length (data p) = n * m" "i < n"
    by (auto simp: prediction_record_def split: list.splits)
  have len: "length (row2 p i) = m" using length_row2 p by blast
  then have ne: "row2 p i \<noteq> []" using p by auto
  show "data (truth_of p) ! i = at2 p i 0"
    using p ne row2_nth [of p n m i 0] by (simp add: truth_of_def hd_conv_nth)
  show "length (tl (row2 p i)) = shape p ! 1 - 1" using len p by simp
  show "\<forall>j<shape p ! 1 - 1. tl (row2 p i) ! j = at2 p i (Suc j)"
    using p len row2_nth [of p n m i] by (auto simp: nth_tl)
  show "data (label_of p) ! i = argmax1 (tl (row2 p i))"
    using p by (simp add: label_of_def)
  show "tl (row2 p i) \<noteq> []" using len p by (cases "row2 p i") auto
qed

text \<open>
  Claim C5. For prediction records, \<open>main\<close> hands every record to the scorer's \<open>eval\<close>
  exactly once and in order, as (column 0, argmax over the remaining columns of each row,
  the remaining columns), and then calls \<open>get_results\<close> once, whose result it returns.
  The second conjunct reads this off the calls a recording scorer receives; the third
  describes the three arrays element by element: the label of a row without \<open>NaN\<close> is
  the first index of a maximum of the remaining columns.
\<close>

theorem main_scores_every_record:
  assumes "get_predictions_from_file cfg = Inr preds"
    and "\<forall>p\<in>set preds. prediction_record p"
    and "get_scorer cfg = (sc, s0)"
  shows "main get_predictions_from_file get_scorer cfg =
           Inr (scorer_get_results sc
                 (foldl (\<lambda>s p. scorer_eval sc s (truth_of p) (label_of p) (raw_of p)) s0 preds))
       \<and> main get_predictions_from_file (\<lambda>_. (recording_scorer r, [])) cfg =
           Inr (r, map (\<lambda>p. EvalCall (truth_of p) (label_of p) (raw_of p)) preds @ [GetResultsCall])
       \<and> (\<forall>p\<in>set preds. \<forall>i<hd (shape p).
            data (truth_of p) ! i = at2 p i 0 \<and>
            length (tl (row2 p i)) = shape p ! 1 - 1 \<and>
            (\<forall>j<shape p ! 1 - 1. tl (row2 p i) ! j = at2 p i (Suc j)) \<and>
            data (label_of p) ! i = argmax1 (tl (row2 p i)) \<and>
            (NaN \<notin> set (tl (row2 p i)) \<longrightarrow> first_max_index (tl (row2 p i)) (argmax1 (tl (row2 p i)))))"
proof (intro conjI ballI allI impI)
  show "main get_predictions_from_file get_scorer cfg =
           Inr (scorer_get_results sc
                 (foldl (\<lambda>s p. scorer_eval sc s (truth_of p) (label_of p) (raw_of p)) s0 preds))"
    using assms by (rule main_records)
  have "main get_predictions_from_file (\<lambda>_. (recording_scorer r, [])) cfg =
      Inr (scorer_get_results (recording_scorer r)
            (foldl (\<lambda>s p. scorer_eval (recording_scorer r) s (truth_of p) (label_of p) (raw_of p)) [] preds))"
    using assms(1,2) by (intro main_records) auto
  then show "main get_predictions_from_file (\<lambda>_. (recording_scorer r, [])) cfg =
           Inr (r, map (\<lambda>p. EvalCall (truth_of p) (label_of p) (raw_of p)) preds @ [GetResultsCall])"
    by (simp add: foldl_recording) (simp add: recording_scorer_def)
next
  fix p i assume pi: "p \<in> set preds" "i < hd (shape p)"
  then have rec: "prediction_record p" using assms(2) by blast
  note cols = record_columns [OF rec pi(2)]
  show "data (truth_of p) ! i = at2 p i 0" by (rule cols)
  show "length (tl (row2 p i)) = shape p ! 1 - 1" by (rule cols)
  show "data (label_of p) ! i = argmax1 (tl (row2 p i))" by (rule cols)
  show "tl (row2 p i) ! j = at2 p i (Suc j)" if "j < shape p ! 1 - 1" for j
    using cols(3) that by blast
  show "first_max_index (tl (row2 p i)) (argmax1 (tl (row2 p i)))" if "NaN \<notin> set (tl (row2 p i))"
    using argmax1_first_max [OF cols(5) that] by (simp add: first_max_index_def)
qed

theorem main_scores_every_record_witness:
  "prediction_record example_record \<and>
   main (\<lambda>_. Inr [example_record]) (\<lambda>_. (recording_scorer (), [])) () =
     Inr ((), [EvalCall \<lparr>shape = [2], data = [Fin 0, Fin 1]\<rparr>
                        \<lparr>shape = [2], data = [1, 0]\<rparr>
                        \<lparr>shape = [2, 2], data = [Fin 1, Fin 3, Fin 5, Fin 2]\<rparr>, GetResultsCall])"
proof -
  have rec: "\<forall>p\<in>set [example_record]. prediction_record p"
    by (simp add: prediction_record_def example_record_def)
  have t: "truth_of example_record = \<lparr>shape = [2], data = [Fin 0, Fin 1]\<rparr>"
    by (simp add: truth_of_def example_record_def row2_def upt_conv_Cons numeral_2_eq_2)
  have o: "raw_of example_record = \<lparr>shape = [2, 2], data = [Fin 1, Fin 3, Fin 5, Fin 2]\<rparr>"
    by (simp add: raw_of_def example_record_def row2_def upt_conv_Cons numeral_2_eq_2)
  have l: "label_of example_record = \<lparr>shape = [2], data = [1, 0]\<rparr>"
    by (simp add: label_of_def example_record_def row2_def upt_conv_Cons numeral_2_eq_2 argmax1_def isnan_def)
  from main_scores_every_record [of "\<lambda>_. Inr [example_record]" "()" "[example_record]"
      "\<lambda>_. (recording_scorer (), [])" "recording_scorer ()" "[]" "()", OF refl rec refl]
  show ?thesis using rec by (simp add: t o l recording_scorer_def)
qed

section \<open>Properties of the conversion to float32\<close>

lemma rne_of_int [simp]: "rne (of_int k) = k"
  by (simp add: rne_def)

lemma floor_log2:
  assumes "2 ^ n \<le> x" "x < 2 ^ Suc n"
  shows "\<lfloor>log 2 x\<rfloor> = int n"
proof -
  have x: "0 < x" using assms(1) by (smt (verit) zero_less_power)
  have "real n \<le> log 2 x"
    using assms(1) x by (simp add: le_log_iff powr_realpow)
  moreover have "log 2 x < real n + 1"
    using assms(2) x by (simp add: log_less_iff powr_realpow powr_add)
  ultimately show ?thesis by (simp add: floor_eq_iff)
qed

text \<open>An integer of magnitude below \<open>2 ^ 24\<close> is a float32 and is converted to itself.\<close>

lemma round32_of_int:
  assumes "\<bar>k\<bar> < 2 ^ 24"
  shows "round32 (of_int k) = Fin (of_int k)"
proof (cases "k = 0")
  case True
  then show ?thesis by (simp add: round32_def)
next
  case False
  define x :: real where "x = \<bar>of_int k\<bar>"
  define e where "e = \<lfloor>log 2 x\<rfloor>"
  have x1: "1 \<le> x" using False by (simp add: x_def)
  have x2: "x < 2 ^ 24"
  proof -
    have "real_of_int \<bar>k\<bar> < real_of_int (2 ^ 24)" using assms by (simp only: of_int_less_iff)
    then show ?thesis by (simp add: x_def)
  qed
  have "0 \<le> log 2 x" using x1 by simp
  then have e0: "0 \<le> e" by (simp add: e_def)
  have "log 2 x < 24" using x1 x2 by (simp add: log_less_iff)
  then have e1: "e \<le> 23" unfolding e_def by (simp add: floor_le_iff)
  define j where "j = nat (23 - e)"
  have q: "(2 :: real) powr (of_int e - 23) = 1 / 2 ^ j"
  proof -
    have "of_int e - 23 = - real j" using e1 by (simp add: j_def)
    then show ?thesis by (simp add: powr_minus powr_realpow divide_inverse)
  qed
  have quot: "real_of_int k / (1 / 2 ^ j) = real_of_int (k * 2 ^ j)" by simp
  have r: "real_of_int (rne (of_int k / (1 / 2 ^ j))) * (1 / 2 ^ j) = of_int k"
    unfolding quot rne_of_int by simp
  have big: "\<not> (2 :: real) ^ 128 \<le> \<bar>of_int k\<bar>"
  proof -
    have "(2 :: real) ^ 24 \<le> 2 ^ 128" by (rule power_increasing) simp_all
    then show ?thesis using x2 unfolding x_def by linarith
  qed
  have emax: "max \<lfloor>log 2 \<bar>real_of_int k\<bar>\<rfloor> (- 126) = e"
    using e0 by (simp add: e_def x_def)
  show ?thesis
    using False big by (simp only: round32_def Let_def emax q r of_int_eq_0_iff if_False)
qed

lemma round32_0 [simp]: "round32 0 = Fin 0"
  by (simp add: round32_def)

lemma round32_1 [simp]: "round32 1 = Fin 1"
  using round32_of_int [of 1] by simp

lemma round32_numeral [simp]:
  "numeral n < (2 :: int) ^ 24 \<Longrightarrow> round32 (numeral n) = Fin (numeral n)"
  using round32_of_int [of "numeral n"] by simp

lemma round32_neg_1 [simp]: "round32 (- 1) = Fin (- 1)"
  using round32_of_int [of "- 1"] by simp

lemma round32_neg_numeral [simp]:
  "numeral n < (2 :: int) ^ 24 \<Longrightarrow> round32 (- numeral n) = Fin (- numeral n)"
  using round32_of_int [of "- numeral n"] by simp

text \<open>
  The first integer that is not a float32 is \<open>2 ^ 24 + 1\<close>, half way between two of them;
  it is converted to the even one.
\<close>

lemma round32_tie: "round32 16777217 = Fin 16777216"
proof -
  have "\<lfloor>log 2 (16777217 :: real)\<rfloor> = int 24"
    by (rule floor_log2) simp_all
  then show ?thesis
    by (simp add: round32_def Let_def rne_def)
qed

text \<open>
  The powers of two up to \<open>2 ^ 127\<close> are float32 numbers; from \<open>2 ^ 128\<close> on they overflow.
\<close>

lemma round32_pow2:
  "round32 (2 ^ k) = (if k < 128 then Fin (2 ^ k) else PInf)"
proof -
  have lg: "\<lfloor>log 2 \<bar>(2 :: real) ^ k\<bar>\<rfloor> = int k"
    by (simp add: log_nat_power)
  have e: "max (int k) (- 126) = int k" by simp
  have q: "(2 :: real) ^ k / 2 powr (real_of_int (int k) - 23) = 2 ^ 23"
    by (simp add: powr_diff powr_realpow)
  have r: "real_of_int (rne (2 ^ 23)) * 2 powr (real_of_int (int k) - 23) = 2 ^ k"
  proof -
    have "rne (2 ^ 23) = 2 ^ 23" using rne_of_int [of "2 ^ 23"] by simp
    then show ?thesis by (simp add: powr_diff powr_realpow)
  qed
  have cmp: "(2 :: real) ^ 128 \<le> \<bar>2 ^ k\<bar> \<longleftrightarrow> 128 \<le> k"
  proof -
    have a: "\<bar>(2 :: real) ^ k\<bar> = 2 ^ k" by simp
    show ?thesis
      unfolding abs_minus_cancel a by (rule power_increasing_iff) simp
  qed
  show ?thesis
    by (simp only: round32_def Let_def lg e q r cmp) auto
qed

lemma round32_neg_pow2:
  "round32 (- (2 ^ k)) = (if k < 128 then Fin (- (2 ^ k)) else NInf)"
proof -
  have lg: "\<lfloor>log 2 \<bar>- ((2 :: real) ^ k)\<bar>\<rfloor> = int k"
    by (simp add: log_nat_power)
  have e: "max (int k) (- 126) = int k" by simp
  have q: "- ((2 :: real) ^ k) / 2 powr (real_of_int (int k) - 23) = - (2 ^ 23)"
    by (simp add: powr_diff powr_realpow)
  have r: "real_of_int (rne (- (2 ^ 23))) * 2 powr (real_of_int (int k) - 23) = - (2 ^ k)"
  proof -
    have "rne (- (2 ^ 23)) = - (2 ^ 23)" using rne_of_int [of "- (2 ^ 23)"] by simp
    then show ?thesis by (simp add: powr_diff powr_realpow)
  qed
  have cmp: "(2 :: real) ^ 128 \<le> \<bar>- (2 ^ k)\<bar> \<longleftrightarrow> 128 \<le> k"
  proof -
    have a: "\<bar>(2 :: real) ^ k\<bar> = 2 ^ k" by simp
    show ?thesis
      unfolding abs_minus_cancel a by (rule power_increasing_iff) simp
  qed
  show ?thesis
    by (simp only: round32_def Let_def lg e q r cmp) auto
qed

lemma round32_2_64 [simp]: "round32 18446744073709551616 = Fin 18446744073709551616"
  using round32_pow2 [of 64] by simp

lemma round32_2_128 [simp]: "round32 340282366920938463463374607431768211456 = PInf"
  using round32_pow2 [of 128] by simp

lemma round32_neg_2_128 [simp]: "round32 (- 340282366920938463463374607431768211456) = NInf"
  using round32_neg_pow2 [of 128] by simp

text \<open>
  A sum is rounded: the mean of \<open>1\<close> and the float32 just below it is \<open>1\<close>.
\<close>

lemma round32_below_2: "round32 (2 - 1 / 2 ^ 24) = Fin 2"
proof -
  define x :: real where "x = 2 - 1 / 2 ^ 24"
  have x0: "x \<noteq> 0" by (simp add: x_def)
  have "\<lfloor>log 2 x\<rfloor> = int 0"
    by (rule floor_log2) (simp_all add: x_def)
  then have e: "max \<lfloor>log 2 \<bar>x\<bar>\<rfloor> (- 126) = 0" by (simp add: x_def)
  have q: "(2 :: real) powr (of_int 0 - 23) = 1 / 2 ^ 23"
    by (simp add: powr_minus_divide)
  have quot: "x / (1 / 2 ^ 23) = 33554431 / 2" by (simp add: x_def)
  have n: "rne (33554431 / 2) = 16777216" by (simp add: rne_def)
  have r: "real_of_int 16777216 * (1 / 2 ^ 23) = 2" by simp
  have big: "\<not> (2 :: real) ^ 128 \<le> \<bar>2\<bar>" by simp
  show ?thesis
    unfolding x_def [symmetric]
    using x0 big by (simp only: round32_def Let_def e q quot n r if_False)
qed

lemma mean_rounds: "fl_div (fl_sum [Fin 1, Fin (1 - 1 / 2 ^ 24)]) (Fin 2) = Fin 1"
proof -
  have "(1 :: real) + (1 - 1 / 2 ^ 24) = 2 - 1 / 2 ^ 24" by simp
  then have "fl_add (Fin 1) (Fin (1 - 1 / 2 ^ 24)) = Fin 2"
    by (simp only: fl_add.simps round32_below_2)
  then show ?thesis by (simp add: fl_sum_def)
qed

lemma is_float_to_float [simp]: "is_float (to_float t)"
  by (cases t) simp_all

lemma tensor_shape_to_float [simp]: "tensor_shape (to_float t) = tensor_shape t"
  by (cases t) simp_all

lemma is_float_tensor_rows [simp]: "is_float (tensor_rows t idxs) = is_float t"
  by (cases t) simp_all

lemma to_float_rounds:
  "to_float (IntTensor \<lparr>shape = [1], data = [16777217]\<rparr>) =
     FloatTensor \<lparr>shape = [1], data = [Fin 16777216]\<rparr>"
  by (simp add: round32_tie)

lemma to_float_int_targets:
  "to_float int_targets = FloatTensor \<lparr>shape = [3], data = [Fin 1, Fin 2, Fin 3]\<rparr>"
  by (simp add: int_targets_def)

section \<open>Properties of the forward pass\<close>

lemma run_ops_append:
  "run_ops (ops @ ops') x = (case run_ops ops x of Inl e \<Rightarrow> Inl e | Inr y \<Rightarrow> run_ops ops' y)"
  by (induction ops arbitrary: x) (auto split: sum.splits)

lemma hidden_layers_run_ops:
  "hidden_layers ls x = run_ops (concat (map (\<lambda>l. [Affine l, ReLU]) ls)) x"
  by (induction ls arbitrary: x) (auto split: sum.splits)

lemma forward_run_ops:
  "forward self x =
     run_ops ([Affine (input_layer self), ReLU] @ concat (map (\<lambda>l. [Affine l, ReLU]) (layers self)) @
              [Affine (output_layer self)] @
              (if objective (args self) = ''classification'' then [Softmax] else [])) x"
  by (simp add: forward_def hidden_layers_run_ops run_ops_append split: sum.splits)

lemma forward_logits:
  "forward self x =
     (case logits self x of
        Inl e \<Rightarrow> Inl e
      | Inr z \<Rightarrow> if objective (args self) = ''classification'' then softmax_dim1 z else Inr z)"
  unfolding forward_run_ops logits_def
  by (simp add: run_ops_append split: sum.splits)

subsection \<open>Arrays made of blocks\<close>

lemma length_concat_blocks:
  "(\<And>i. i < n \<Longrightarrow> length (f i) = k) \<Longrightarrow> length (concat (map f [0..<n])) = n * k"
  by (induction n) (auto simp: add.commute)

lemma take_drop_concat_blocks:
  assumes "\<And>i. i < n \<Longrightarrow> length (f i) = k" "i < n"
  shows "take k (drop (i * k) (concat (map f [0..<n]))) = f i"
proof -
  have len: "length (concat (map f [0..<n])) = n * k"
    using assms(1) by (rule length_concat_blocks)
  have "i * k + k \<le> n * k" using block_bound [OF assms(2)] .
  then show ?thesis
    using nth_concat_blocks [of n f k i, OF assms(1) assms(2)] assms len
    by (simp add: list_eq_iff_nth_eq)
qed

subsection \<open>The softmax\<close>

lemma length_softmax1: "length (softmax1 xs) = length xs"
  by (cases xs) (simp_all add: softmax1_def Let_def)

lemma softmax_dim1_matrix:
  assumes "shape x = [n, m]" "length (data x) = n * m"
  shows "softmax_dim1 x =
           Inr \<lparr>shape = [n, m], data = concat (map (\<lambda>i. softmax1 (row2 x i)) [0..<n])\<rparr>"
proof -
  have "concat (map (\<lambda>j. [softmax1 (map (\<lambda>j'. data x ! (i * m + j')) [0..<m]) ! j]) [0..<m])
      = softmax1 (row2 x i)" if "i < n" for i
  proof -
    have "i * m + m \<le> length (data x)" using block_bound [OF that] assms(2) by simp
    then have "map (\<lambda>j'. data x ! (i * m + j')) [0..<m] = row2 x i"
      using assms(1) by (simp add: row2_def list_eq_iff_nth_eq)
    moreover have "concat (map (\<lambda>j. [ys ! j]) [0..<m]) = ys" if "length ys = m" for ys :: "fl list"
      using that by (simp add: list_eq_iff_nth_eq concat_map_singleton)
    moreover have "length (softmax1 (row2 x i)) = m"
      using length_row2 [OF assms that] by (simp add: length_softmax1)
    ultimately show ?thesis by simp
  qed
  then have "concat (map (\<lambda>i. concat (map (\<lambda>j. [softmax1 (map (\<lambda>j'. data x ! (i * m + j')) [0..<m]) ! j]) [0..<m])) [0..<n])
      = concat (map (\<lambda>i. softmax1 (row2 x i)) [0..<n])"
    by (intro arg_cong [where f = concat] map_cong) auto
  then show ?thesis
    using assms(1) by (cases x) (simp add: softmax_dim1_def)
qed


text \<open>
  A \<open>NaN\<close> or a positive infinity among the scores makes the maximum \<open>NaN\<close> or infinite,
  the difference of that score to the maximum \<open>NaN\<close>, and with it the sum and every
  quotient.
\<close>

lemma fl_add_NaN [simp]: "fl_add a NaN = NaN"
  by (cases a) simp_all

lemma fl_div_NaN [simp]: "fl_div a NaN = NaN"
  by (cases a) simp_all










subsection \<open>The layers of the constructor\<close>

lemma MLP_init_layers:
  assumes "1 \<le> n_layers ps"
  shows "length (layers (MLP_init init ps as)) = nat (n_layers ps) - 1"
    and "length (affine_layers (MLP_init init ps as)) = nat (n_layers ps) + 1"
    and "\<forall>l\<in>set (layers (MLP_init init ps as)).
           in_features l = hidden_dim ps \<and> out_features l = hidden_dim ps"
  using assms
  by (auto simp: MLP_init_def affine_layers_def Let_def Linear_def nat_diff_distrib)

lemma concat_pairs_snoc:
  "concat (map f (xs @ [x])) = concat (map f xs) @ f x"
  by simp

lemma count_relu:
  "length (filter (\<lambda>op. op = ReLU) (concat (map (\<lambda>l. [Affine l, ReLU]) ls))) = length ls"
  by (induction ls) auto

subsection \<open>The layer count and the activations\<close>

text \<open>
  Claim C10. For \<open>n_layers = k\<close> with \<open>k \<ge> 1\<close> the constructor builds \<open>k + 1\<close> affine
  layers: the input layer (features to hidden width), \<open>k - 1\<close> hidden layers of equal
  width, and the output layer (hidden width to classes). The forward pass is a ReLU after
  each of the first \<open>k\<close> of them, then the last one without activation (and the softmax
  for classification): \<open>k\<close> ReLUs in all, so that \<open>n_layers\<close> counts the input layer
  among the hidden layers.
\<close>

theorem mlp_layer_count:
  assumes "1 \<le> n_layers ps"
  shows "length (affine_layers (MLP_init init ps as)) = nat (n_layers ps) + 1 \<and>
         in_features (input_layer (MLP_init init ps as)) = num_features as \<and>
         out_features (input_layer (MLP_init init ps as)) = hidden_dim ps \<and>
         length (layers (MLP_init init ps as)) = nat (n_layers ps) - 1 \<and>
         (\<forall>l\<in>set (layers (MLP_init init ps as)).
            in_features l = hidden_dim ps \<and> out_features l = hidden_dim ps) \<and>
         in_features (output_layer (MLP_init init ps as)) = hidden_dim ps \<and>
         out_features (output_layer (MLP_init init ps as)) = num_classes as \<and>
         (\<forall>x. forward (MLP_init init ps as) x =
            run_ops (concat (map (\<lambda>l. [Affine l, ReLU])
                       (take (nat (n_layers ps)) (affine_layers (MLP_init init ps as)))) @
                     [Affine (affine_layers (MLP_init init ps as) ! nat (n_layers ps))] @
                     (if objective as = ''classification'' then [Softmax] else [])) x) \<and>
         length (filter (\<lambda>op. op = ReLU)
           (concat (map (\<lambda>l. [Affine l, ReLU])
              (take (nat (n_layers ps)) (affine_layers (MLP_init init ps as)))))) = nat (n_layers ps)"
proof -
  let ?self = "MLP_init init ps as"
  let ?k = "nat (n_layers ps)"
  note L = MLP_init_layers [OF assms, of init as]
  have len: "length (input_layer ?self # layers ?self) = ?k"
    using L(1) assms by simp
  have tk: "take ?k (affine_layers ?self) = input_layer ?self # layers ?self"
    unfolding affine_layers_def len [symmetric] by simp
  have nth: "affine_layers ?self ! ?k = output_layer ?self"
    unfolding affine_layers_def len [symmetric] by (simp add: nth_append)
  have args: "objective (args ?self) = objective as"
    by (simp add: MLP_init_def Let_def)
  have fwd: "forward ?self x =
      run_ops (concat (map (\<lambda>l. [Affine l, ReLU]) (take ?k (affine_layers ?self))) @
               [Affine (affine_layers ?self ! ?k)] @
               (if objective as = ''classification'' then [Softmax] else [])) x" for x
    unfolding tk nth by (simp add: forward_run_ops args)
  have cnt: "length (filter (\<lambda>op. op = ReLU)
           (concat (map (\<lambda>l. [Affine l, ReLU]) (take ?k (affine_layers ?self))))) = ?k"
    unfolding tk count_relu using len .
  have dims: "in_features (input_layer ?self) = num_features as"
    "out_features (input_layer ?self) = hidden_dim ps"
    "in_features (output_layer ?self) = hidden_dim ps"
    "out_features (output_layer ?self) = num_classes as"
    by (simp_all add: MLP_init_def Let_def Linear_def)
  show ?thesis
    using L dims fwd cnt by blast
qed


subsection \<open>Examples of the forward pass\<close>

lemmas signed_eval =
  signed_mlp_def ex_params_def MLP_init_def Let_def Linear_def signed_init_def
  linear_apply_def affine_def relu_def fl_sum_def inf_of_sign_def
  upt_conv_Cons numeral_2_eq_2

lemma signed_objective: "objective (args (signed_mlp ob classes)) = ob"
  by (simp add: signed_mlp_def MLP_init_def Let_def)

text \<open>
  With weights of both signs the scores of a regression are of both signs, too: nothing
  follows the output layer.
\<close>

lemma signed_logits:
  "logits (signed_mlp ob 2) signed_input =
     Inr \<lparr>shape = [2, 2], data = [Fin 3, Fin (- 3), Fin 3, Fin (- 3)]\<rparr>"
  by (simp add: logits_def signed_eval signed_input_def)

lemma signed_forward_regression:
  "forward (signed_mlp ''regression'' 2) signed_input =
     Inr \<lparr>shape = [2, 2], data = [Fin 3, Fin (- 3), Fin 3, Fin (- 3)]\<rparr>"
  by (simp add: forward_logits signed_logits signed_objective)






theorem mlp_layer_count_witness:
  "1 \<le> n_layers ex_params \<and>
   length (affine_layers (MLP_init zero_init ex_params (ex_args ''binary''))) = 3 \<and>
   length (layers (MLP_init zero_init ex_params (ex_args ''binary''))) = 1 \<and>
   length (filter (\<lambda>op. op = ReLU)
     (concat (map (\<lambda>l. [Affine l, ReLU])
        (take 2 (affine_layers (MLP_init zero_init ex_params (ex_args ''binary''))))))) = 2"
proof -
  have k: "1 \<le> n_layers ex_params" "nat (n_layers ex_params) = 2"
    by (simp_all add: ex_params_def)
  from mlp_layer_count [OF k(1), of zero_init "ex_args ''binary''"]
  show ?thesis using k by simp
qed

section \<open>Properties of the training loop\<close>

subsection \<open>The loops as a run of steps\<close>

lemma batch_loop_run_steps:
  "run_steps rt lf vl st (map (Pair epoch) xs @ rest) =
   (case batch_loop rt lf vl st epoch xs of
      Inl e \<Rightarrow> Inl e
    | Inr (Return st') \<Rightarrow> Inr (Return st')
    | Inr (Continue st') \<Rightarrow> run_steps rt lf vl st' rest)"
proof (induction xs arbitrary: st)
  case Nil
  then show ?case by simp
next
  case (Cons x xs)
  obtain i batch where x: "x = (i, batch)" by (cases x) auto
  show ?case
    unfolding x by (simp add: Cons.IH split: sum.splits flow.splits)
qed

lemma epoch_loop_run_steps:
  "epoch_loop rt lf trl vl st es = map_sum id flow_state (run_steps rt lf vl st (schedule trl es))"
proof (induction es arbitrary: st)
  case Nil
  then show ?case by (simp add: schedule_def)
next
  case (Cons epoch es)
  have "schedule trl (epoch # es) =
      map (Pair epoch) (enumerate 0 (trl epoch)) @ schedule trl es"
    by (simp add: schedule_def)
  then show ?case
    by (simp add: batch_loop_run_steps Cons.IH split: sum.splits flow.splits)
qed

lemma run_steps_append:
  "run_steps rt lf vl st (pre @ post) =
     (case run_steps rt lf vl st pre of
        Inl e \<Rightarrow> Inl e
      | Inr (Return st') \<Rightarrow> Inr (Return st')
      | Inr (Continue st') \<Rightarrow> run_steps rt lf vl st' post)"
  by (induction pre arbitrary: st) (auto split: sum.splits flow.splits)

subsection \<open>One step\<close>

lemma validation_loop_sum:
  "validation_loop rt self lf acc n bs = Inr (s, d) \<Longrightarrow>
     \<exists>ls. map (batch_loss rt self lf) bs = map Inr ls \<and> s = foldl fl_add acc ls \<and> d = n + length bs"
proof (induction bs arbitrary: acc n)
  case Nil
  then show ?case by simp
next
  case (Cons b bs)
  from Cons.prems obtain l where l: "batch_loss rt self lf b = Inr l"
    and rest: "validation_loop rt self lf (fl_add acc l) (n + 1) bs = Inr (s, d)"
    by (auto split: sum.splits)
  from Cons.IH [OF rest] obtain ls where
    "map (batch_loss rt self lf) bs = map Inr ls" "s = foldl fl_add (fl_add acc l) ls"
    "d = n + 1 + length bs" by blast
  then have "map (batch_loss rt self lf) (b # bs) = map Inr (l # ls) \<and>
      s = foldl fl_add acc (l # ls) \<and> d = n + length (b # bs)"
    using l by simp
  then show ?case by blast
qed

lemma fit_step_result:
  assumes "fit_step rt lf vb st epoch i batch = Inr r"
  shows "\<exists>loss ls.
     batch_loss rt (model st) lf batch = Inr loss \<and>
     vb \<noteq> [] \<and>
     map (batch_loss rt (updated_model rt lf st batch) lf) vb = map Inr ls \<and>
     stdout (flow_state r) =
       stdout st @ [(epoch, i, loss, fl_div (fl_sum ls) (Fin (real (length vb))))] \<and>
     model (flow_state r) = updated_model rt lf st batch \<and>
     min_val_loss (flow_state r) =
       strict_min (min_val_loss st) (fl_div (fl_sum ls) (Fin (real (length vb)))) \<and>
     min_val_loss_idx (flow_state r) =
       (if fl_lt (fl_div (fl_sum ls) (Fin (real (length vb)))) (min_val_loss st)
        then current_idx i epoch else min_val_loss_idx st) \<and>
     files (flow_state r) =
       (if fl_lt (fl_div (fl_sum ls) (Fin (real (length vb)))) (min_val_loss st)
        then save_model rt (updated_model rt lf st batch) (files st) ''best'' ''tmp''
        else files st) \<and>
     (is_Return r \<longleftrightarrow>
        min_val_loss_idx (flow_state r) + early_stopping_rounds (args (model st))
          < current_idx i epoch)"
proof -
  from assms obtain loss where loss: "batch_loss rt (model st) lf batch = Inr loss"
    by (auto simp: fit_step_def split: sum.splits)
  obtain opt sd where os: "optimizer_step rt (optimizer st) (model st) lf batch = (opt, sd)"
    by (cases "optimizer_step rt (optimizer st) (model st) lf batch") auto
  define self where "self = updated_model rt lf st batch"
  have self: "self = (model st)\<lparr>input_layer := sd_input_layer sd, layers := sd_layers sd,
                     output_layer := sd_output_layer sd\<rparr>"
    by (simp add: self_def updated_model_def os)
  from assms loss os self obtain val_sum val_dim where
    vl: "validation_loop rt self lf (Fin 0) 0 vb = Inr (val_sum, val_dim)"
    by (auto simp: fit_step_def Let_def split: sum.splits)
  from assms loss os self vl have nz: "val_dim \<noteq> 0"
    by (auto simp: fit_step_def Let_def split: if_splits)
  from validation_loop_sum [OF vl] obtain ls where
    ls: "map (batch_loss rt self lf) vb = map Inr ls" "val_sum = fl_sum ls" "val_dim = length vb"
    by (auto simp: fl_sum_def)
  have ne: "vb \<noteq> []" using nz ls by auto
  show ?thesis
    apply (rule exI [of _ loss], rule exI [of _ ls])
    using assms loss os vl nz ls ne self
    unfolding self_def [symmetric]
    by (auto simp: fit_step_def Let_def strict_min_def split: if_splits)
qed

subsection \<open>The strict running minimum\<close>

lemma fl_lt_not_nan: "fl_lt x y \<Longrightarrow> x \<noteq> NaN \<and> y \<noteq> NaN"
  by (cases x; cases y) auto

lemma fl_lt_le_trans: "fl_lt x y \<Longrightarrow> fl_le y z \<Longrightarrow> fl_le x z"
  by (cases x; cases y; cases z) auto

lemma fl_not_lt: "x \<noteq> NaN \<Longrightarrow> y \<noteq> NaN \<Longrightarrow> \<not> fl_lt x y \<Longrightarrow> fl_le y x"
  by (cases x; cases y) auto

lemma fl_lt_PInf: "fl_lt x PInf \<longleftrightarrow> x \<noteq> NaN \<and> x \<noteq> PInf"
  by (cases x) auto

lemma running_min_step:
  assumes "running_min vs m"
  shows "running_min (vs @ [v]) (strict_min m v)"
proof (cases "fl_lt v m")
  case True
  then have "v \<noteq> NaN" using fl_lt_not_nan by blast
  moreover have "list_all (\<lambda>w. w = NaN \<or> fl_le v w) vs"
    using assms True by (auto simp: running_min_def list_all_iff intro: fl_lt_le_trans)
  ultimately show ?thesis
    using True by (simp add: running_min_def strict_min_def fl_le_refl)
next
  case False
  have "v = NaN \<or> fl_le m v"
    using assms False fl_not_lt [of v m] by (auto simp: running_min_def)
  then show ?thesis
    using assms False by (auto simp: running_min_def strict_min_def)
qed

lemma running_min_PInf_iff:
  assumes "running_min vs m"
  shows "fl_lt m PInf \<longleftrightarrow> (\<exists>v\<in>set vs. fl_lt v PInf)"
proof
  assume "fl_lt m PInf"
  then show "\<exists>v\<in>set vs. fl_lt v PInf"
    using assms by (auto simp: running_min_def)
next
  assume "\<exists>v\<in>set vs. fl_lt v PInf"
  then obtain v where v: "v \<in> set vs" "fl_lt v PInf" by blast
  then have "fl_le m v" "v \<noteq> PInf"
    using assms by (auto simp: running_min_def list_all_iff fl_lt_PInf)
  then show "fl_lt m PInf" by (cases m; cases v) auto
qed

lemma fit_inv_initial: "fit_inv rt self (initial_state rt self fs)"
  by (simp add: fit_inv_def initial_state_def val_losses_def running_min_def)

lemma fit_inv_step:
  assumes inv: "fit_inv rt self st" and step: "fit_step rt lf vb st epoch i batch = Inr r"
  shows "fit_inv rt self (flow_state r)"
proof -
  from fit_step_result [OF step] obtain loss ls where
    out: "stdout (flow_state r) =
       stdout st @ [(epoch, i, loss, fl_div (fl_sum ls) (Fin (real (length vb))))]"
    and mdl: "model (flow_state r) = updated_model rt lf st batch"
    and mn: "min_val_loss (flow_state r) =
       strict_min (min_val_loss st) (fl_div (fl_sum ls) (Fin (real (length vb))))"
    and fs: "files (flow_state r) =
       (if fl_lt (fl_div (fl_sum ls) (Fin (real (length vb)))) (min_val_loss st)
        then save_model rt (updated_model rt lf st batch) (files st) ''best'' ''tmp''
        else files st)"
    by blast
  define v where "v = fl_div (fl_sum ls) (Fin (real (length vb)))"
  have vals: "val_losses (flow_state r) = val_losses st @ [v]"
    by (simp add: val_losses_def out v_def)
  have a: "args (model (flow_state r)) = args self"
    using inv by (simp add: mdl updated_model_def Let_def fit_inv_def)
  have rm: "running_min (val_losses st) (min_val_loss st)"
    using inv unfolding fit_inv_def by blast
  have b: "min_val_loss (flow_state r) = foldl strict_min PInf (val_losses (flow_state r))"
    using inv by (simp add: vals mn v_def fit_inv_def)
  have c: "running_min (val_losses (flow_state r)) (min_val_loss (flow_state r))"
    unfolding vals mn v_def [symmetric] using rm by (rule running_min_step)
  have d: "best_path rt self \<in> dom (files (flow_state r))"
    if ex: "\<exists>w\<in>set (val_losses (flow_state r)). fl_lt w PInf"
  proof (cases "fl_lt v (min_val_loss st)")
    case True
    have "args (updated_model rt lf st batch) = args self"
      using a mdl by simp
    then show ?thesis
      using True by (simp add: fs v_def [symmetric] save_model_def best_path_def)
  next
    case False
    have "fl_lt (min_val_loss (flow_state r)) PInf"
      using running_min_PInf_iff [OF c] ex by blast
    then have "fl_lt (min_val_loss st) PInf"
      using False by (simp add: mn v_def [symmetric] strict_min_def)
    then have "\<exists>w\<in>set (val_losses st). fl_lt w PInf"
      using running_min_PInf_iff [OF rm] by blast
    then show ?thesis
      using inv False by (simp add: fs v_def [symmetric] fit_inv_def)
  qed
  show ?thesis
    unfolding fit_inv_def using a b c d by blast
qed

lemma fit_inv_run_steps:
  "fit_inv rt self st \<Longrightarrow> run_steps rt lf vl st steps = Inr r \<Longrightarrow> fit_inv rt self (flow_state r)"
proof (induction steps arbitrary: st)
  case Nil
  then show ?case by auto
next
  case (Cons s steps)
  obtain epoch i batch where s: "s = (epoch, i, batch)" by (cases s) auto
  from Cons.prems(2) obtain r1 where
    r1: "fit_step rt lf (vl epoch i) st epoch i batch = Inr r1"
    by (auto simp: s split: sum.splits)
  have inv1: "fit_inv rt self (flow_state r1)"
    using fit_inv_step [OF Cons.prems(1) r1] .
  show ?case
  proof (cases r1)
    case (Continue st1)
    then show ?thesis using Cons.IH [of st1 ] Cons.prems(2) r1 inv1 by (simp add: s)
  next
    case (Return st1)
    then show ?thesis using Cons.prems(2) r1 inv1 by (auto simp: s)
  qed
qed

subsection \<open>fit as a run of its schedule\<close>

lemma fit_unfold:
  assumes "fit rt self fs X y X_val y_val train_order val_order = Inr st"
  shows "map_sum id flow_state
           (run_steps rt (fit_loss_func self y y_val)
              (fit_val_loader self X_val y y_val val_order)
              (initial_state rt self fs)
              (fit_schedule self X y y_val train_order)) = Inr st"
proof -
  obtain lf y' yv' where ls: "loss_setup (objective (args self)) y y_val = (lf, y', yv')"
    by (cases "loss_setup (objective (args self)) y y_val") auto
  have tl: "fit_train_loader self X y y_val train_order =
      (\<lambda>epoch. make_batches (batch_size (params self)) X y' (train_order epoch))"
    by (rule ext) (simp add: fit_train_loader_def ls)
  have vl: "fit_val_loader self X_val y y_val val_order =
      (\<lambda>epoch i. make_batches (batch_size (params self)) X_val yv' (val_order epoch i))"
    by (rule ext, rule ext) (simp add: fit_val_loader_def ls)
  from assms show ?thesis
    unfolding fit_schedule_def tl vl fit_loss_func_def ls
    by (simp add: fit_def ls epoch_loop_run_steps split: option.splits if_splits)
qed

lemma fit_ready_unfold:
  assumes "fit_ready self X y X_val y_val"
  shows "fit rt self fs X y X_val y_val train_order val_order =
         map_sum id flow_state
           (run_steps rt (fit_loss_func self y y_val)
              (fit_val_loader self X_val y y_val val_order)
              (initial_state rt self fs)
              (fit_schedule self X y y_val train_order))"
proof -
  obtain lf y' yv' where ls: "loss_setup (objective (args self)) y y_val = (lf, y', yv')"
    by (cases "loss_setup (objective (args self)) y y_val") auto
  have tl: "fit_train_loader self X y y_val train_order =
      (\<lambda>epoch. make_batches (batch_size (params self)) X y' (train_order epoch))"
    by (rule ext) (simp add: fit_train_loader_def ls)
  have vl: "fit_val_loader self X_val y y_val val_order =
      (\<lambda>epoch i. make_batches (batch_size (params self)) X_val yv' (val_order epoch i))"
    by (rule ext, rule ext) (simp add: fit_val_loader_def ls)
  from assms show ?thesis
    unfolding fit_schedule_def tl vl fit_loss_func_def ls
    by (simp add: fit_def fit_ready_def ls epoch_loop_run_steps)
qed

lemma concat_chunks: "0 < n \<Longrightarrow> concat (chunks n xs) = xs"
proof (induction n xs rule: chunks.induct)
  case (1 n xs)
  then show ?case by (subst chunks.simps) auto
qed

subsection \<open>The errors of predict\<close>

lemma run_ops_errors:
  "run_ops ops x = Inl e \<Longrightarrow> e = RuntimeError \<or> e = IndexError"
proof (induction ops arbitrary: x)
  case Nil
  then show ?case by simp
next
  case (Cons op ops)
  show ?case
  proof (cases "run_op op x")
    case (Inl e')
    then have "e' = RuntimeError \<or> e' = IndexError"
      by (cases op)
        (auto simp: linear_apply_def softmax_dim1_def Let_def split: list.splits if_splits)
    then show ?thesis using Cons.prems Inl by simp
  next
    case (Inr y)
    then show ?thesis using Cons by simp
  qed
qed

lemma forward_errors: "forward self x = Inl e \<Longrightarrow> e = RuntimeError \<or> e = IndexError"
  unfolding forward_run_ops by (rule run_ops_errors)

lemma predict_loop_errors:
  "predict_loop self X batches = Inl e \<Longrightarrow> e = RuntimeError \<or> e = IndexError"
proof (induction batches)
  case Nil
  then show ?case by simp
next
  case (Cons b batches)
  then show ?case by (auto split: sum.splits dest: forward_errors)
qed

lemma concatenate_errors: "concatenate arrs = Inl e \<Longrightarrow> e = ValueError"
  by (simp add: concatenate_def split: list.splits if_splits)

lemma load_model_found:
  "fs (best_path rt self) = Some sd \<Longrightarrow>
     load_model rt self fs ''best'' ''tmp'' = load_state_dict self sd"
  by (simp add: load_model_def best_path_def)

lemma load_state_dict_errors: "load_state_dict self sd = Inl e \<Longrightarrow> e = RuntimeError"
  by (simp add: load_state_dict_def split: if_splits)

lemma predict_not_found_iff:
  "predict rt self fs X order = Inl FileNotFoundError \<longleftrightarrow> fs (best_path rt self) = None"
proof (cases "fs (best_path rt self)")
  case None
  then show ?thesis by (simp add: predict_def load_model_def best_path_def)
next
  case (Some sd)
  have lm: "load_model rt self fs ''best'' ''tmp'' = load_state_dict self sd"
    using Some by (rule load_model_found)
  have "predict rt self fs X order \<noteq> Inl FileNotFoundError"
  proof (cases "load_state_dict self sd")
    case (Inl e)
    then show ?thesis
      using load_state_dict_errors [OF Inl] by (simp add: predict_def lm)
  next
    case (Inr self1)
    show ?thesis
    proof (cases "shape X = [] \<or> DataLoader (shape X) (batch_size (params self1)) \<noteq> None")
      case True
      then show ?thesis by (auto simp: predict_def lm Inr DataLoader_def split: if_splits)
    next
      case False
      show ?thesis
      proof (cases "predict_loop self1 X (chunks (batch_size (params self1)) order)")
        case (Inl e)
        then show ?thesis
          using predict_loop_errors [OF Inl] False by (auto simp: predict_def lm Inr)
      next
        case ps: (Inr ps)
        show ?thesis
        proof (cases "concatenate ps")
          case (Inl e)
          then show ?thesis
            using concatenate_errors [OF Inl] False by (simp add: predict_def lm Inr ps)
        next
          case p: (Inr p)
          then show ?thesis using False by (simp add: predict_def lm Inr ps)
        qed
      qed
    qed
  qed
  then show ?thesis using Some by simp
qed

subsection \<open>The invariant at the steps that are reached\<close>

lemma fit_inv_fit:
  assumes "fit rt self fs X y X_val y_val train_order val_order = Inr st"
  shows "fit_inv rt self st"
proof -
  from fit_unfold [OF assms] obtain r where
    r: "run_steps rt (fit_loss_func self y y_val) (fit_val_loader self X_val y y_val val_order)
          (initial_state rt self fs) (fit_schedule self X y y_val train_order) = Inr r"
    and st: "st = flow_state r"
    by (auto simp: map_sum_def split: sum.splits)
  show ?thesis
    unfolding st using fit_inv_initial r by (rule fit_inv_run_steps)
qed

lemma fit_inv_reach:
  assumes "run_steps rt lf vl (initial_state rt self fs) pre = Inr r"
  shows "fit_inv rt self (flow_state r)"
  using fit_inv_initial assms by (rule fit_inv_run_steps)

lemma current_idx_drops:
  assumes "2 \<le> nb" "1 \<le> e"
  shows "current_idx 0 (Suc e) < current_idx (nb - 1) e"
proof -
  have "current_idx (nb - 1) e = int nb * (int e + 1)"
    using assms by (simp add: current_idx_def of_nat_diff)
  moreover have "2 * (int e + 1) \<le> int nb * (int e + 1)"
    using assms by (intro mult_right_mono) auto
  ultimately show ?thesis using assms by (simp add: current_idx_def)
qed

subsection \<open>Early stopping\<close>

text \<open>
  Claim C1. At batch \<open>i\<close> of epoch \<open>epoch\<close> the step index of the early-stopping
  bookkeeping is \<open>(i + 1) * (epoch + 1)\<close>; it is the only value the recorded index of the
  best validation loss can change to. \<open>fit\<close> returns at this step, with the state right
  after it and whatever batches and epochs remain, exactly when the recorded index plus the
  patience is strictly less than the step index; otherwise it goes on with the remaining
  steps. The counter is not monotone: with at least two batches per epoch, the first step
  of every epoch after the second (epoch index 2 or more) has a smaller index than the
  last step of the epoch before.
\<close>

theorem fit_early_stopping:
  assumes ready: "fit_ready self X y X_val y_val"
    and sched: "fit_schedule self X y y_val train_order = pre @ (epoch, i, batch) # post"
    and reach: "run_steps rt (fit_loss_func self y y_val)
                  (fit_val_loader self X_val y y_val val_order)
                  (initial_state rt self fs) pre = Inr (Continue st1)"
    and step: "fit_step rt (fit_loss_func self y y_val)
                 (fit_val_loader self X_val y y_val val_order epoch i) st1 epoch i batch = Inr r"
  shows "current_idx i epoch = (int i + 1) * (int epoch + 1) \<and>
         (min_val_loss_idx (flow_state r) = current_idx i epoch \<or>
          min_val_loss_idx (flow_state r) = min_val_loss_idx st1) \<and>
         (is_Return r \<longleftrightarrow>
            min_val_loss_idx (flow_state r) + early_stopping_rounds (args self)
              < (int i + 1) * (int epoch + 1)) \<and>
         (is_Return r \<longrightarrow>
            fit rt self fs X y X_val y_val train_order val_order = Inr (flow_state r)) \<and>
         (\<not> is_Return r \<longrightarrow>
            fit rt self fs X y X_val y_val train_order val_order =
              map_sum id flow_state
                (run_steps rt (fit_loss_func self y y_val)
                   (fit_val_loader self X_val y y_val val_order) (flow_state r) post)) \<and>
         (\<exists>loss v. stdout (flow_state r) = stdout st1 @ [(epoch, i, loss, v)]) \<and>
         (\<forall>nb e. 2 \<le> nb \<and> 1 \<le> e \<longrightarrow> current_idx 0 (Suc e) < current_idx (nb - 1) e)"
proof -
  let ?lf = "fit_loss_func self y y_val"
  let ?vl = "fit_val_loader self X_val y y_val val_order"
  have args1: "args (model st1) = args self"
    using fit_inv_reach [OF reach] by (simp add: fit_inv_def)
  from fit_step_result [OF step] obtain loss ls where
    res: "stdout (flow_state r) =
            stdout st1 @ [(epoch, i, loss, fl_div (fl_sum ls) (Fin (real (length (?vl epoch i)))))]"
      "min_val_loss_idx (flow_state r) =
         (if fl_lt (fl_div (fl_sum ls) (Fin (real (length (?vl epoch i))))) (min_val_loss st1)
          then current_idx i epoch else min_val_loss_idx st1)"
      "is_Return r \<longleftrightarrow>
         min_val_loss_idx (flow_state r) + early_stopping_rounds (args (model st1))
           < current_idx i epoch"
    by blast
  have run: "fit rt self fs X y X_val y_val train_order val_order =
      map_sum id flow_state
        (case r of Return st' \<Rightarrow> Inr (Return st')
         | Continue st' \<Rightarrow> run_steps rt ?lf ?vl st' post)"
    by (simp add: fit_ready_unfold [OF ready] sched run_steps_append reach step
        split: flow.splits)
  have a: "current_idx i epoch = (int i + 1) * (int epoch + 1)"
    by (simp add: current_idx_def)
  have b: "min_val_loss_idx (flow_state r) = current_idx i epoch \<or>
          min_val_loss_idx (flow_state r) = min_val_loss_idx st1"
    using res(2) by auto
  have c: "is_Return r \<longleftrightarrow>
            min_val_loss_idx (flow_state r) + early_stopping_rounds (args self)
              < (int i + 1) * (int epoch + 1)"
    using res(3) by (simp add: args1 a)
  have d: "is_Return r \<longrightarrow>
            fit rt self fs X y X_val y_val train_order val_order = Inr (flow_state r)"
    using run by (cases r) auto
  have e: "\<not> is_Return r \<longrightarrow>
            fit rt self fs X y X_val y_val train_order val_order =
              map_sum id flow_state (run_steps rt ?lf ?vl (flow_state r) post)"
    using run by (cases r) auto
  have f: "\<exists>loss v. stdout (flow_state r) = stdout st1 @ [(epoch, i, loss, v)]"
    using res(1) by blast
  have g: "\<forall>nb e. 2 \<le> nb \<and> 1 \<le> e \<longrightarrow> current_idx 0 (Suc e) < current_idx (nb - 1) e"
    using current_idx_drops by blast
  from a b c d e f g show ?thesis by blast
qed

lemma chunks1: "chunks (Suc 0) [a, b, c] = [[a], [b], [c]]" "chunks (Suc 0) [a] = [[a]]"
  by (simp_all add: chunks.simps)

lemma tiny_ready: "fit_ready tiny_mlp tiny_X tiny_y tiny_X_val tiny_y_val"
  by (simp add: fit_ready_def loss_setup_def tiny_mlp_def MLP_init_def tiny_args_def tiny_params_def
      tiny_X_def tiny_y_def tiny_X_val_def tiny_y_val_def TensorDataset_def DataLoader_def Let_def)

lemma tiny_schedule:
  "fit_schedule tiny_mlp tiny_X tiny_y tiny_y_val (\<lambda>epoch. [2, 0, 1]) =
     [(0, 0, tiny_batch 3)] @ (0, 1, tiny_batch 1) #
     [(0, 2, tiny_batch 2), (1, 0, tiny_batch 3), (1, 1, tiny_batch 1), (1, 2, tiny_batch 2)]"
  by (simp add: fit_schedule_def schedule_def fit_train_loader_def make_batches_def loss_setup_def
      tiny_mlp_def MLP_init_def tiny_args_def tiny_params_def tiny_X_def tiny_y_def tiny_batch_def
      Let_def chunks1 select_rows_def enumerate_eq_zip upt_conv_Cons numeral_2_eq_2)

lemma tiny_val_loader:
  "fit_val_loader tiny_mlp tiny_X_val tiny_y tiny_y_val (\<lambda>epoch i. [0]) epoch i = [tiny_batch 0]"
  by (simp add: fit_val_loader_def make_batches_def loss_setup_def
      tiny_mlp_def MLP_init_def tiny_args_def tiny_params_def tiny_X_val_def tiny_y_val_def
      tiny_batch_def Let_def chunks1 select_rows_def)

lemma tiny_forward:
  "forward tiny_mlp \<lparr>shape = [Suc 0, Suc 0], data = [Fin v]\<rparr> =
     Inr \<lparr>shape = [Suc 0, Suc 0], data = [Fin 0]\<rparr>"
  by (simp add: forward_def tiny_mlp_def MLP_init_def tiny_args_def tiny_params_def Let_def
      Linear_def zero_init_def linear_apply_def affine_def relu_def fl_sum_def)

lemma tiny_self:
  "tiny_mlp\<lparr>input_layer := input_layer tiny_mlp, layers := layers tiny_mlp,
             output_layer := output_layer tiny_mlp\<rparr> = tiny_mlp"
  by simp

lemma tiny_mlp_args: "args tiny_mlp = tiny_args" "params tiny_mlp = tiny_params"
  by (simp_all add: tiny_mlp_def MLP_init_def Let_def)

lemmas tiny_eval =
  fit_step_def initial_state_def Let_def const_rt_def get_state_dict_def tiny_state_def
  batch_loss_def tiny_batch_def tiny_forward tiny_mlp_args tiny_args_def save_model_def
  current_idx_def squeeze_def tiny_self fl_sum_def

lemma tiny_step0:
  "fit_step (const_rt (Fin 1)) lf [tiny_batch 0] (initial_state (const_rt (Fin 1)) tiny_mlp Map.empty)
     0 0 (tiny_batch w) = Inr (Continue (tiny_state [(0, 0, Fin 1, Fin 1)]))"
  by (simp add: tiny_eval)

lemma tiny_step1:
  "fit_step (const_rt (Fin 1)) lf [tiny_batch 0] (tiny_state [(0, 0, Fin 1, Fin 1)])
     0 1 (tiny_batch w) = Inr (Return (tiny_state [(0, 0, Fin 1, Fin 1), (0, 1, Fin 1, Fin 1)]))"
  by (simp add: tiny_eval)

theorem fit_early_stopping_witness:
  "fit_ready tiny_mlp tiny_X tiny_y tiny_X_val tiny_y_val \<and>
   fit_schedule tiny_mlp tiny_X tiny_y tiny_y_val (\<lambda>epoch. [2, 0, 1]) =
     [(0, 0, tiny_batch 3)] @ (0, 1, tiny_batch 1) #
     [(0, 2, tiny_batch 2), (1, 0, tiny_batch 3), (1, 1, tiny_batch 1), (1, 2, tiny_batch 2)] \<and>
   run_steps (const_rt (Fin 1)) (fit_loss_func tiny_mlp tiny_y tiny_y_val)
     (fit_val_loader tiny_mlp tiny_X_val tiny_y tiny_y_val (\<lambda>epoch i. [0]))
     (initial_state (const_rt (Fin 1)) tiny_mlp Map.empty) [(0, 0, tiny_batch 3)] =
       Inr (Continue (tiny_state [(0, 0, Fin 1, Fin 1)])) \<and>
   fit_step (const_rt (Fin 1)) (fit_loss_func tiny_mlp tiny_y tiny_y_val)
     (fit_val_loader tiny_mlp tiny_X_val tiny_y tiny_y_val (\<lambda>epoch i. [0]) 0 1)
     (tiny_state [(0, 0, Fin 1, Fin 1)]) 0 1 (tiny_batch 1) =
       Inr (Return (tiny_state [(0, 0, Fin 1, Fin 1), (0, 1, Fin 1, Fin 1)])) \<and>
   current_idx 1 0 = 2 \<and>
   min_val_loss_idx (tiny_state [(0, 0, Fin 1, Fin 1), (0, 1, Fin 1, Fin 1)]) = 1 \<and>
   early_stopping_rounds (args tiny_mlp) = 0 \<and>
   fit (const_rt (Fin 1)) tiny_mlp Map.empty tiny_X tiny_y tiny_X_val tiny_y_val
     (\<lambda>epoch. [2, 0, 1]) (\<lambda>epoch i. [0]) =
       Inr (tiny_state [(0, 0, Fin 1, Fin 1), (0, 1, Fin 1, Fin 1)])"
proof -
  have reach: "run_steps (const_rt (Fin 1)) (fit_loss_func tiny_mlp tiny_y tiny_y_val)
     (fit_val_loader tiny_mlp tiny_X_val tiny_y tiny_y_val (\<lambda>epoch i. [0]))
     (initial_state (const_rt (Fin 1)) tiny_mlp Map.empty) [(0, 0, tiny_batch 3)] =
       Inr (Continue (tiny_state [(0, 0, Fin 1, Fin 1)]))"
    by (simp add: tiny_val_loader tiny_step0)
  have step: "fit_step (const_rt (Fin 1)) (fit_loss_func tiny_mlp tiny_y tiny_y_val)
     (fit_val_loader tiny_mlp tiny_X_val tiny_y tiny_y_val (\<lambda>epoch i. [0]) 0 1)
     (tiny_state [(0, 0, Fin 1, Fin 1)]) 0 1 (tiny_batch 1) =
       Inr (Return (tiny_state [(0, 0, Fin 1, Fin 1), (0, 1, Fin 1, Fin 1)]))"
    unfolding tiny_val_loader by (rule tiny_step1)
  have idx: "current_idx 1 0 = 2"
    "min_val_loss_idx (tiny_state [(0, 0, Fin 1, Fin 1), (0, 1, Fin 1, Fin 1)]) = 1"
    "early_stopping_rounds (args tiny_mlp) = 0"
    by (simp_all add: current_idx_def tiny_state_def tiny_mlp_args tiny_args_def)
  from fit_early_stopping [OF tiny_ready tiny_schedule reach step]
  have "fit (const_rt (Fin 1)) tiny_mlp Map.empty tiny_X tiny_y tiny_X_val tiny_y_val
     (\<lambda>epoch. [2, 0, 1]) (\<lambda>epoch i. [0]) =
       Inr (tiny_state [(0, 0, Fin 1, Fin 1), (0, 1, Fin 1, Fin 1)])"
    by simp
  then show ?thesis
    using tiny_ready tiny_schedule reach step idx by (intro conjI)
qed

subsection \<open>The validation loss and the best checkpoint\<close>

text \<open>
  Claim C4. At every step \<open>fit\<close> reaches, and so after every single training batch, the
  validation loss is the sum of the losses of the validation batches, computed with the
  weights just updated, divided by the number of batches (every batch with the same
  weight); the batches are the chunks of the sampler's order over the validation set and
  together make up that whole order. When the
  loss is strictly below the recorded minimum, the minimum becomes that loss, its index
  becomes the step index and the current weights are written to the best checkpoint in
  \<open>tmp\<close>; otherwise all three are left as they were. Before and after the step the
  recorded minimum is the strict running minimum of the validation losses computed so
  far: the fold of the strict comparison from positive infinity, which is never \<open>NaN\<close>, is
  below every loss that is not \<open>NaN\<close>, and is positive infinity or one of the losses.
  \<open>fit\<close> itself returns the state after the step when the step returns, and otherwise
  goes on from that state with the remaining steps.
\<close>

theorem fit_validation_tracking:
  assumes ready: "fit_ready self X y X_val y_val"
    and sched: "fit_schedule self X y y_val train_order = pre @ (epoch, i, batch) # post"
    and reach: "run_steps rt (fit_loss_func self y y_val)
                  (fit_val_loader self X_val y y_val val_order)
                  (initial_state rt self fs) pre = Inr (Continue st1)"
    and step: "fit_step rt (fit_loss_func self y y_val)
                 (fit_val_loader self X_val y y_val val_order epoch i) st1 epoch i batch = Inr r"
  shows "(\<exists>loss ls v.
            fit_val_loader self X_val y y_val val_order epoch i \<noteq> [] \<and>
            map (batch_loss rt (model (flow_state r)) (fit_loss_func self y y_val))
                (fit_val_loader self X_val y y_val val_order epoch i) = map Inr ls \<and>
            v = fl_div (fl_sum ls) (Fin (real (length ls))) \<and>
            stdout (flow_state r) = stdout st1 @ [(epoch, i, loss, v)] \<and>
            (fl_lt v (min_val_loss st1) \<longrightarrow>
               min_val_loss (flow_state r) = v \<and>
               min_val_loss_idx (flow_state r) = current_idx i epoch \<and>
               files (flow_state r) =
                 (files st1)(best_path rt self \<mapsto> get_state_dict (model (flow_state r)))) \<and>
            (\<not> fl_lt v (min_val_loss st1) \<longrightarrow>
               min_val_loss (flow_state r) = min_val_loss st1 \<and>
               min_val_loss_idx (flow_state r) = min_val_loss_idx st1 \<and>
               files (flow_state r) = files st1)) \<and>
         concat (chunks (batch_size (params self)) (val_order epoch i)) = val_order epoch i \<and>
         map fst (fit_val_loader self X_val y y_val val_order epoch i) =
           map (select_rows X_val) (chunks (batch_size (params self)) (val_order epoch i)) \<and>
         min_val_loss st1 = foldl strict_min PInf (val_losses st1) \<and>
         running_min (val_losses st1) (min_val_loss st1) \<and>
         min_val_loss (flow_state r) = foldl strict_min PInf (val_losses (flow_state r)) \<and>
         running_min (val_losses (flow_state r)) (min_val_loss (flow_state r)) \<and>
         (is_Return r \<longrightarrow>
            fit rt self fs X y X_val y_val train_order val_order = Inr (flow_state r)) \<and>
         (\<not> is_Return r \<longrightarrow>
            fit rt self fs X y X_val y_val train_order val_order =
              map_sum id flow_state
                (run_steps rt (fit_loss_func self y y_val)
                   (fit_val_loader self X_val y y_val val_order) (flow_state r) post))"
proof -
  let ?lf = "fit_loss_func self y y_val"
  let ?vb = "fit_val_loader self X_val y y_val val_order epoch i"
  let ?vl = "fit_val_loader self X_val y y_val val_order"
  have inv1: "fit_inv rt self st1" using fit_inv_reach [OF reach] by simp
  have inv2: "fit_inv rt self (flow_state r)" using fit_inv_step [OF inv1 step] .
  from fit_step_result [OF step] obtain loss ls where
    ne: "?vb \<noteq> []"
    and ls: "map (batch_loss rt (updated_model rt ?lf st1 batch) ?lf) ?vb = map Inr ls"
    and out: "stdout (flow_state r) =
       stdout st1 @ [(epoch, i, loss, fl_div (fl_sum ls) (Fin (real (length ?vb))))]"
    and mdl: "model (flow_state r) = updated_model rt ?lf st1 batch"
    and mn: "min_val_loss (flow_state r) =
       strict_min (min_val_loss st1) (fl_div (fl_sum ls) (Fin (real (length ?vb))))"
    and ix: "min_val_loss_idx (flow_state r) =
       (if fl_lt (fl_div (fl_sum ls) (Fin (real (length ?vb)))) (min_val_loss st1)
        then current_idx i epoch else min_val_loss_idx st1)"
    and fl: "files (flow_state r) =
       (if fl_lt (fl_div (fl_sum ls) (Fin (real (length ?vb)))) (min_val_loss st1)
        then save_model rt (updated_model rt ?lf st1 batch) (files st1) ''best'' ''tmp''
        else files st1)"
    by blast
  have len: "length ls = length ?vb"
    using ls by (metis length_map)
  define v where "v = fl_div (fl_sum ls) (Fin (real (length ls)))"
  have v: "fl_div (fl_sum ls) (Fin (real (length ?vb))) = v"
    by (simp add: v_def len)
  have lsne: "ls \<noteq> []" using ne len by auto
  have a2: "args (model (flow_state r)) = args self"
    using inv2 by (simp add: fit_inv_def)
  have save: "save_model rt (model (flow_state r)) (files st1) ''best'' ''tmp'' =
      (files st1)(best_path rt self \<mapsto> get_state_dict (model (flow_state r)))"
    using a2 by (simp add: save_model_def best_path_def)
  have step_facts: "\<exists>loss ls v.
            ?vb \<noteq> [] \<and>
            map (batch_loss rt (model (flow_state r)) ?lf) ?vb = map Inr ls \<and>
            v = fl_div (fl_sum ls) (Fin (real (length ls))) \<and>
            stdout (flow_state r) = stdout st1 @ [(epoch, i, loss, v)] \<and>
            (fl_lt v (min_val_loss st1) \<longrightarrow>
               min_val_loss (flow_state r) = v \<and>
               min_val_loss_idx (flow_state r) = current_idx i epoch \<and>
               files (flow_state r) =
                 (files st1)(best_path rt self \<mapsto> get_state_dict (model (flow_state r)))) \<and>
            (\<not> fl_lt v (min_val_loss st1) \<longrightarrow>
               min_val_loss (flow_state r) = min_val_loss st1 \<and>
               min_val_loss_idx (flow_state r) = min_val_loss_idx st1 \<and>
               files (flow_state r) = files st1)"
    apply (rule exI [of _ loss], rule exI [of _ ls], rule exI [of _ v])
    using ne ls out mn ix fl
    unfolding v mdl [symmetric]
    by (simp add: strict_min_def v_def save)
  have bs: "0 < batch_size (params self)"
    using ready by (auto simp: fit_ready_def DataLoader_def split: prod.splits if_splits)
  have cover: "concat (chunks (batch_size (params self)) (val_order epoch i)) = val_order epoch i"
    using bs by (rule concat_chunks)
  have rows: "map fst ?vb =
           map (select_rows X_val) (chunks (batch_size (params self)) (val_order epoch i))"
    by (simp add: fit_val_loader_def make_batches_def o_def)
  have m1: "min_val_loss st1 = foldl strict_min PInf (val_losses st1)"
    "running_min (val_losses st1) (min_val_loss st1)"
    using inv1 unfolding fit_inv_def by blast+
  have m2: "min_val_loss (flow_state r) = foldl strict_min PInf (val_losses (flow_state r))"
    "running_min (val_losses (flow_state r)) (min_val_loss (flow_state r))"
    using inv2 unfolding fit_inv_def by blast+
  have run: "fit rt self fs X y X_val y_val train_order val_order =
      map_sum id flow_state
        (case r of Return st' \<Rightarrow> Inr (Return st')
         | Continue st' \<Rightarrow> run_steps rt ?lf ?vl st' post)"
    by (simp add: fit_ready_unfold [OF ready] sched run_steps_append reach step
        split: flow.splits)
  have ret: "is_Return r \<longrightarrow>
            fit rt self fs X y X_val y_val train_order val_order = Inr (flow_state r)"
    using run by (cases r) auto
  have cont: "\<not> is_Return r \<longrightarrow>
            fit rt self fs X y X_val y_val train_order val_order =
              map_sum id flow_state (run_steps rt ?lf ?vl (flow_state r) post)"
    using run by (cases r) auto
  show ?thesis
    by (intro conjI step_facts cover rows m1 m2 ret cont)
qed

lemma tiny_reach0:
  "run_steps (const_rt v) (fit_loss_func tiny_mlp tiny_y tiny_y_val)
     (fit_val_loader tiny_mlp tiny_X_val tiny_y tiny_y_val (\<lambda>epoch i. [0]))
     (initial_state (const_rt v) tiny_mlp Map.empty) [] =
       Inr (Continue (initial_state (const_rt v) tiny_mlp Map.empty))"
  by simp

lemma tiny_schedule0:
  "fit_schedule tiny_mlp tiny_X tiny_y tiny_y_val (\<lambda>epoch. [2, 0, 1]) =
     [] @ (0, 0, tiny_batch 3) #
     [(0, 1, tiny_batch 1), (0, 2, tiny_batch 2), (1, 0, tiny_batch 3), (1, 1, tiny_batch 1),
      (1, 2, tiny_batch 2)]"
  using tiny_schedule by simp

theorem fit_validation_tracking_witness:
  "fit_ready tiny_mlp tiny_X tiny_y tiny_X_val tiny_y_val \<and>
   fit_schedule tiny_mlp tiny_X tiny_y tiny_y_val (\<lambda>epoch. [2, 0, 1]) =
     [] @ (0, 0, tiny_batch 3) #
     [(0, 1, tiny_batch 1), (0, 2, tiny_batch 2), (1, 0, tiny_batch 3), (1, 1, tiny_batch 1),
      (1, 2, tiny_batch 2)] \<and>
   run_steps (const_rt (Fin 1)) (fit_loss_func tiny_mlp tiny_y tiny_y_val)
     (fit_val_loader tiny_mlp tiny_X_val tiny_y tiny_y_val (\<lambda>epoch i. [0]))
     (initial_state (const_rt (Fin 1)) tiny_mlp Map.empty) [] =
       Inr (Continue (initial_state (const_rt (Fin 1)) tiny_mlp Map.empty)) \<and>
   fit_step (const_rt (Fin 1)) (fit_loss_func tiny_mlp tiny_y tiny_y_val)
     (fit_val_loader tiny_mlp tiny_X_val tiny_y tiny_y_val (\<lambda>epoch i. [0]) 0 0)
     (initial_state (const_rt (Fin 1)) tiny_mlp Map.empty) 0 0 (tiny_batch 3) =
       Inr (Continue (tiny_state [(0, 0, Fin 1, Fin 1)])) \<and>
   min_val_loss (tiny_state [(0, 0, Fin 1, Fin 1)]) = Fin 1 \<and>
   files (tiny_state [(0, 0, Fin 1, Fin 1)]) ''tmp/mbest.pt'' = Some (get_state_dict tiny_mlp) \<and>
   min_val_loss (tiny_state [(0, 0, Fin 1, Fin 1)]) =
     foldl strict_min PInf (val_losses (tiny_state [(0, 0, Fin 1, Fin 1)])) \<and>
   running_min (val_losses (tiny_state [(0, 0, Fin 1, Fin 1)]))
     (min_val_loss (tiny_state [(0, 0, Fin 1, Fin 1)])) \<and>
   fit (const_rt (Fin 1)) tiny_mlp Map.empty tiny_X tiny_y tiny_X_val tiny_y_val
     (\<lambda>epoch. [2, 0, 1]) (\<lambda>epoch i. [0]) =
     map_sum id flow_state
       (run_steps (const_rt (Fin 1)) (fit_loss_func tiny_mlp tiny_y tiny_y_val)
          (fit_val_loader tiny_mlp tiny_X_val tiny_y tiny_y_val (\<lambda>epoch i. [0]))
          (tiny_state [(0, 0, Fin 1, Fin 1)])
          [(0, 1, tiny_batch 1), (0, 2, tiny_batch 2), (1, 0, tiny_batch 3),
           (1, 1, tiny_batch 1), (1, 2, tiny_batch 2)])"
proof -
  have step: "fit_step (const_rt (Fin 1)) (fit_loss_func tiny_mlp tiny_y tiny_y_val)
     (fit_val_loader tiny_mlp tiny_X_val tiny_y tiny_y_val (\<lambda>epoch i. [0]) 0 0)
     (initial_state (const_rt (Fin 1)) tiny_mlp Map.empty) 0 0 (tiny_batch 3) =
       Inr (Continue (tiny_state [(0, 0, Fin 1, Fin 1)]))"
    unfolding tiny_val_loader by (rule tiny_step0)
  have vals: "min_val_loss (tiny_state [(0, 0, Fin 1, Fin 1)]) = Fin 1"
    "files (tiny_state [(0, 0, Fin 1, Fin 1)]) ''tmp/mbest.pt'' = Some (get_state_dict tiny_mlp)"
    by (simp_all add: tiny_state_def)
  note T = fit_validation_tracking [OF tiny_ready tiny_schedule0 tiny_reach0 step]
  have a: "min_val_loss (tiny_state [(0, 0, Fin 1, Fin 1)]) =
     foldl strict_min PInf (val_losses (tiny_state [(0, 0, Fin 1, Fin 1)]))"
    using T [THEN conjunct2, THEN conjunct2, THEN conjunct2, THEN conjunct2, THEN conjunct2,
        THEN conjunct1]
    by (simp only: flow_state.simps)
  have b: "running_min (val_losses (tiny_state [(0, 0, Fin 1, Fin 1)]))
     (min_val_loss (tiny_state [(0, 0, Fin 1, Fin 1)]))"
    using T [THEN conjunct2, THEN conjunct2, THEN conjunct2, THEN conjunct2, THEN conjunct2,
        THEN conjunct2, THEN conjunct1]
    by (simp only: flow_state.simps)
  have "fit (const_rt (Fin 1)) tiny_mlp Map.empty tiny_X tiny_y tiny_X_val tiny_y_val
     (\<lambda>epoch. [2, 0, 1]) (\<lambda>epoch i. [0]) =
     map_sum id flow_state
       (run_steps (const_rt (Fin 1)) (fit_loss_func tiny_mlp tiny_y tiny_y_val)
          (fit_val_loader tiny_mlp tiny_X_val tiny_y tiny_y_val (\<lambda>epoch i. [0]))
          (tiny_state [(0, 0, Fin 1, Fin 1)])
          [(0, 1, tiny_batch 1), (0, 2, tiny_batch 2), (1, 0, tiny_batch 3),
           (1, 1, tiny_batch 1), (1, 2, tiny_batch 2)])"
    using T [THEN conjunct2, THEN conjunct2, THEN conjunct2, THEN conjunct2, THEN conjunct2,
        THEN conjunct2, THEN conjunct2, THEN conjunct2]
    by (simp only: flow_state.simps is_Return.simps not_False_eq_True simp_thms)
  then show ?thesis
    using tiny_ready tiny_schedule0 tiny_reach0 [of "Fin 1"] step vals a b by (intro conjI)
qed

text \<open>
  Claim C9, as amended. When \<open>fit\<close> returns and one of the validation losses it computed
  is below positive infinity (a number, neither \<open>NaN\<close> nor positive infinity), the best
  checkpoint exists in \<open>tmp\<close> afterwards, under the path \<open>predict\<close> reads, so that neither
  \<open>load_model\<close> nor \<open>predict\<close> fails for lack of a file. In particular the first iteration
  writes it exactly when its validation loss is below positive infinity, the initial best.
\<close>

theorem fit_writes_best_checkpoint:
  assumes ret: "fit rt self fs X y X_val y_val train_order val_order = Inr st"
    and v: "v \<in> set (val_losses st)" "fl_lt v PInf"
  shows "(\<exists>sd. files st (best_path rt self) = Some sd) \<and>
         best_path rt (model st) = best_path rt self \<and>
         load_model rt (model st) (files st) ''best'' ''tmp'' \<noteq> Inl FileNotFoundError \<and>
         (\<forall>X' order. predict rt (model st) (files st) X' order \<noteq> Inl FileNotFoundError) \<and>
         (\<forall>lf vb batch r l w.
            fit_step rt lf vb (initial_state rt self fs) 0 0 batch = Inr r \<and>
            stdout (flow_state r) = [(0, 0, l, w)] \<longrightarrow>
              (fl_lt w PInf \<longrightarrow>
                 min_val_loss (flow_state r) = w \<and> best_path rt self \<in> dom (files (flow_state r))) \<and>
              (\<not> fl_lt w PInf \<longrightarrow>
                 min_val_loss (flow_state r) = PInf \<and> files (flow_state r) = fs))"
proof -
  have inv: "fit_inv rt self st" using ret by (rule fit_inv_fit)
  then have a: "args (model st) = args self"
    and dom: "best_path rt self \<in> dom (files st)"
    using v unfolding fit_inv_def by blast+
  have p: "best_path rt (model st) = best_path rt self"
    using a by (simp add: best_path_def)
  from dom obtain sd where sd: "files st (best_path rt self) = Some sd" by blast
  have lm: "load_model rt (model st) (files st) ''best'' ''tmp'' \<noteq> Inl FileNotFoundError"
    using sd a load_state_dict_errors [of "model st" sd]
    by (auto simp: load_model_def best_path_def)
  have pr: "\<forall>X' order. predict rt (model st) (files st) X' order \<noteq> Inl FileNotFoundError"
    using predict_not_found_iff [of rt "model st" "files st"] sd p by simp
  have first: "(fl_lt w PInf \<longrightarrow>
                 min_val_loss (flow_state r) = w \<and> best_path rt self \<in> dom (files (flow_state r))) \<and>
              (\<not> fl_lt w PInf \<longrightarrow>
                 min_val_loss (flow_state r) = PInf \<and> files (flow_state r) = fs)"
    if step: "fit_step rt lf vb (initial_state rt self fs) 0 0 batch = Inr r"
      and out: "stdout (flow_state r) = [(0, 0, l, w)]" for lf vb batch r l w
  proof -
    from fit_step_result [OF step] obtain loss ls where
      o: "stdout (flow_state r) = stdout (initial_state rt self fs) @
            [(0, 0, loss, fl_div (fl_sum ls) (Fin (real (length vb))))]"
      and mn: "min_val_loss (flow_state r) =
         strict_min (min_val_loss (initial_state rt self fs))
           (fl_div (fl_sum ls) (Fin (real (length vb))))"
      and fl: "files (flow_state r) =
         (if fl_lt (fl_div (fl_sum ls) (Fin (real (length vb))))
               (min_val_loss (initial_state rt self fs))
          then save_model rt (updated_model rt lf (initial_state rt self fs) batch)
                 (files (initial_state rt self fs)) ''best'' ''tmp''
          else files (initial_state rt self fs))"
      and mdl: "model (flow_state r) = updated_model rt lf (initial_state rt self fs) batch"
      by blast
    have w: "fl_div (fl_sum ls) (Fin (real (length vb))) = w"
      using o out by (simp add: initial_state_def)
    have "args (updated_model rt lf (initial_state rt self fs) batch) = args self"
      by (simp add: updated_model_def Let_def initial_state_def)
    then show ?thesis
      using mn fl unfolding w
      by (simp add: initial_state_def strict_min_def save_model_def best_path_def)
  qed
  show ?thesis
    using sd p lm pr first by blast
qed

lemma inf_step0:
  "fit_step (const_rt PInf) lf [tiny_batch 0] (initial_state (const_rt PInf) tiny_mlp Map.empty)
     0 0 (tiny_batch w) = Inr (Return inf_state)"
  by (simp add: tiny_eval inf_state_def inf_of_sign_def)

lemma inf_fit:
  "fit (const_rt PInf) tiny_mlp Map.empty tiny_X tiny_y tiny_X_val tiny_y_val
     (\<lambda>epoch. [2, 0, 1]) (\<lambda>epoch i. [0]) = Inr inf_state"
  unfolding fit_ready_unfold [OF tiny_ready] tiny_schedule
  by (simp add: tiny_val_loader inf_step0)

text \<open>
  The condition cannot be weakened to a loss that is not \<open>NaN\<close>: with a loss function that
  gives positive infinity, the validation loss of the first step is positive infinity,
  which is not \<open>NaN\<close> and is not below the initial best. Nothing is written, \<open>fit\<close>
  returns, and \<open>predict\<close> finds no checkpoint.
\<close>

theorem fit_infinite_loss_counterexample:
  "fit (const_rt PInf) tiny_mlp Map.empty tiny_X tiny_y tiny_X_val tiny_y_val
     (\<lambda>epoch. [2, 0, 1]) (\<lambda>epoch i. [0]) =
     Inr \<lparr>model = tiny_mlp, optimizer = (), files = Map.empty, stdout = [(0, 0, PInf, PInf)],
          min_val_loss = PInf, min_val_loss_idx = 0\<rparr> \<and>
   PInf \<noteq> NaN \<and> \<not> fl_lt PInf PInf \<and>
   predict (const_rt PInf) tiny_mlp Map.empty tiny_X [2, 0, 1] = Inl FileNotFoundError"
  using inf_fit by (simp add: inf_state_def predict_def load_model_def)

lemma tiny_fit:
  "fit (const_rt (Fin 1)) tiny_mlp Map.empty tiny_X tiny_y tiny_X_val tiny_y_val
     (\<lambda>epoch. [2, 0, 1]) (\<lambda>epoch i. [0]) =
       Inr (tiny_state [(0, 0, Fin 1, Fin 1), (0, 1, Fin 1, Fin 1)])"
  unfolding fit_ready_unfold [OF tiny_ready] tiny_schedule
  using tiny_step0 tiny_step1 by (simp add: tiny_val_loader)

theorem fit_writes_best_checkpoint_witness:
  "fit (const_rt (Fin 1)) tiny_mlp Map.empty tiny_X tiny_y tiny_X_val tiny_y_val
     (\<lambda>epoch. [2, 0, 1]) (\<lambda>epoch i. [0]) =
       Inr (tiny_state [(0, 0, Fin 1, Fin 1), (0, 1, Fin 1, Fin 1)]) \<and>
   Fin 1 \<in> set (val_losses (tiny_state [(0, 0, Fin 1, Fin 1), (0, 1, Fin 1, Fin 1)])) \<and>
   fl_lt (Fin 1) PInf \<and>
   (\<exists>sd. files (tiny_state [(0, 0, Fin 1, Fin 1), (0, 1, Fin 1, Fin 1)])
           (best_path (const_rt (Fin 1)) tiny_mlp) = Some sd) \<and>
   predict (const_rt (Fin 1)) (model (tiny_state [(0, 0, Fin 1, Fin 1), (0, 1, Fin 1, Fin 1)]))
     (files (tiny_state [(0, 0, Fin 1, Fin 1), (0, 1, Fin 1, Fin 1)])) tiny_X [2, 0, 1]
       \<noteq> Inl FileNotFoundError"
proof -
  have v: "Fin 1 \<in> set (val_losses (tiny_state [(0, 0, Fin 1, Fin 1), (0, 1, Fin 1, Fin 1)]))"
    by (simp add: val_losses_def tiny_state_def)
  have lt: "fl_lt (Fin 1) PInf" by simp
  from fit_writes_best_checkpoint [OF tiny_fit v lt]
  show ?thesis using tiny_fit v lt by blast
qed

subsection \<open>The choice of the loss\<close>

lemma batch_loss_logits:
  "batch_loss rt self lf (x, t) =
     (case logits self x of
        Inl e \<Rightarrow> Inl e
      | Inr z \<Rightarrow>
          if objective (args self) = ''classification''
          then (case softmax_dim1 z of Inl e \<Rightarrow> Inl e | Inr p \<Rightarrow> loss_fn rt lf p t)
          else loss_fn rt lf
                 (if objective (args self) = ''regression'' \<or> objective (args self) = ''binary''
                  then squeeze z else z) t)"
  by (auto simp: batch_loss_def forward_logits split: sum.splits)

text \<open>
  Claim C2. \<open>fit\<close> chooses the loss by the objective, and the loss chosen is the one of
  every step of its loop: the mean squared error for regression and the sigmoid
  cross-entropy for binary, both on targets cast to float32 (tensors of floats of the same
  shape, in every batch) and both applied to the squeezed scores of the output layer, to
  which no activation has been applied; the cross-entropy for classification, on the
  targets as they are, applied to the output of the forward pass, which is the softmax of
  the scores and not the scores, so that the normalisation of the loss comes on top of it.
\<close>

theorem fit_loss_selection:
  assumes ready: "fit_ready self X y X_val y_val"
  shows "(objective (args self) = ''regression'' \<longrightarrow>
            fit rt self fs X y X_val y_val train_order val_order =
              map_sum id flow_state
                (run_steps rt MSELoss
                   (\<lambda>epoch i. make_batches (batch_size (params self)) X_val (to_float y_val)
                                 (val_order epoch i))
                   (initial_state rt self fs)
                   (schedule (\<lambda>epoch. make_batches (batch_size (params self)) X (to_float y)
                                         (train_order epoch))
                      [0..<nat (epochs (args self))]))) \<and>
         (objective (args self) = ''binary'' \<longrightarrow>
            fit rt self fs X y X_val y_val train_order val_order =
              map_sum id flow_state
                (run_steps rt BCEWithLogitsLoss
                   (\<lambda>epoch i. make_batches (batch_size (params self)) X_val (to_float y_val)
                                 (val_order epoch i))
                   (initial_state rt self fs)
                   (schedule (\<lambda>epoch. make_batches (batch_size (params self)) X (to_float y)
                                         (train_order epoch))
                      [0..<nat (epochs (args self))]))) \<and>
         (objective (args self) = ''classification'' \<longrightarrow>
            fit rt self fs X y X_val y_val train_order val_order =
              map_sum id flow_state
                (run_steps rt CrossEntropyLoss
                   (\<lambda>epoch i. make_batches (batch_size (params self)) X_val y_val
                                 (val_order epoch i))
                   (initial_state rt self fs)
                   (schedule (\<lambda>epoch. make_batches (batch_size (params self)) X y
                                         (train_order epoch))
                      [0..<nat (epochs (args self))]))) \<and>
         is_float (to_float y) \<and> tensor_shape (to_float y) = tensor_shape y \<and>
         is_float (to_float y_val) \<and> tensor_shape (to_float y_val) = tensor_shape y_val \<and>
         (\<forall>order. \<forall>b\<in>set (make_batches (batch_size (params self)) X (to_float y) order).
            is_float (snd b)) \<and>
         (\<forall>order. \<forall>b\<in>set (make_batches (batch_size (params self)) X_val (to_float y_val) order).
            is_float (snd b)) \<and>
         (\<forall>lf vb st epoch i batch r.
            fit_step rt lf vb st epoch i batch = Inr r \<longrightarrow>
              (\<exists>loss v. batch_loss rt (model st) lf batch = Inr loss \<and>
                        stdout (flow_state r) = stdout st @ [(epoch, i, loss, v)])) \<and>
         (\<forall>m lf x t.
            objective (args m) = ''regression'' \<or> objective (args m) = ''binary'' \<longrightarrow>
              batch_loss rt m lf (x, t) =
                (case logits m x of Inl e \<Rightarrow> Inl e | Inr z \<Rightarrow> loss_fn rt lf (squeeze z) t)) \<and>
         (\<forall>m lf x t.
            objective (args m) = ''classification'' \<longrightarrow>
              batch_loss rt m lf (x, t) =
                (case logits m x of
                   Inl e \<Rightarrow> Inl e
                 | Inr z \<Rightarrow>
                     (case softmax_dim1 z of Inl e \<Rightarrow> Inl e | Inr p \<Rightarrow> loss_fn rt lf p t)))"
proof -
  note unfold = fit_ready_unfold [OF ready, of rt fs train_order val_order]
  have reg: "objective (args self) = ''regression'' \<longrightarrow>
            fit rt self fs X y X_val y_val train_order val_order =
              map_sum id flow_state
                (run_steps rt MSELoss
                   (\<lambda>epoch i. make_batches (batch_size (params self)) X_val (to_float y_val)
                                 (val_order epoch i))
                   (initial_state rt self fs)
                   (schedule (\<lambda>epoch. make_batches (batch_size (params self)) X (to_float y)
                                         (train_order epoch))
                      [0..<nat (epochs (args self))]))"
    unfolding unfold fit_loss_func_def fit_schedule_def
    by (simp add: fit_val_loader_def [abs_def] fit_train_loader_def [abs_def] loss_setup_def)
  have bin: "objective (args self) = ''binary'' \<longrightarrow>
            fit rt self fs X y X_val y_val train_order val_order =
              map_sum id flow_state
                (run_steps rt BCEWithLogitsLoss
                   (\<lambda>epoch i. make_batches (batch_size (params self)) X_val (to_float y_val)
                                 (val_order epoch i))
                   (initial_state rt self fs)
                   (schedule (\<lambda>epoch. make_batches (batch_size (params self)) X (to_float y)
                                         (train_order epoch))
                      [0..<nat (epochs (args self))]))"
    unfolding unfold fit_loss_func_def fit_schedule_def
    by (simp add: fit_val_loader_def [abs_def] fit_train_loader_def [abs_def] loss_setup_def)
  have cls: "objective (args self) = ''classification'' \<longrightarrow>
            fit rt self fs X y X_val y_val train_order val_order =
              map_sum id flow_state
                (run_steps rt CrossEntropyLoss
                   (\<lambda>epoch i. make_batches (batch_size (params self)) X_val y_val
                                 (val_order epoch i))
                   (initial_state rt self fs)
                   (schedule (\<lambda>epoch. make_batches (batch_size (params self)) X y
                                         (train_order epoch))
                      [0..<nat (epochs (args self))]))"
    unfolding unfold fit_loss_func_def fit_schedule_def
    by (simp add: fit_val_loader_def [abs_def] fit_train_loader_def [abs_def] loss_setup_def)
  have fl: "is_float (to_float y)" "tensor_shape (to_float y) = tensor_shape y"
    "is_float (to_float y_val)" "tensor_shape (to_float y_val) = tensor_shape y_val"
    by simp_all
  have batches: "\<forall>order. \<forall>b\<in>set (make_batches bs A (to_float t) order). is_float (snd b)"
    for bs A t
    by (auto simp: make_batches_def)
  have step: "\<forall>lf vb st epoch i batch r.
            fit_step rt lf vb st epoch i batch = Inr r \<longrightarrow>
              (\<exists>loss v. batch_loss rt (model st) lf batch = Inr loss \<and>
                        stdout (flow_state r) = stdout st @ [(epoch, i, loss, v)])"
  proof (intro allI impI)
    fix lf vb st epoch i batch r
    assume "fit_step rt lf vb st epoch i batch = Inr r"
    from fit_step_result [OF this]
    show "\<exists>loss v. batch_loss rt (model st) lf batch = Inr loss \<and>
                   stdout (flow_state r) = stdout st @ [(epoch, i, loss, v)]"
      by blast
  qed
  have raw: "\<forall>m lf x t.
            objective (args m) = ''regression'' \<or> objective (args m) = ''binary'' \<longrightarrow>
              batch_loss rt m lf (x, t) =
                (case logits m x of Inl e \<Rightarrow> Inl e | Inr z \<Rightarrow> loss_fn rt lf (squeeze z) t)"
    by (auto simp: batch_loss_logits split: sum.splits)
  have sm: "\<forall>m lf x t.
            objective (args m) = ''classification'' \<longrightarrow>
              batch_loss rt m lf (x, t) =
                (case logits m x of
                   Inl e \<Rightarrow> Inl e
                 | Inr z \<Rightarrow>
                     (case softmax_dim1 z of Inl e \<Rightarrow> Inl e | Inr p \<Rightarrow> loss_fn rt lf p t))"
    by (simp add: batch_loss_logits split: sum.splits)
  show ?thesis
    by (intro conjI reg bin cls fl batches step raw sm)
qed

text \<open>
  Integer targets under the regression objective: the training runs on their conversion.
\<close>

lemma int_ready: "fit_ready tiny_mlp tiny_X int_targets tiny_X_val tiny_y_val"
  by (simp add: fit_ready_def loss_setup_def tiny_mlp_def MLP_init_def tiny_args_def tiny_params_def
      tiny_X_def int_targets_def tiny_X_val_def tiny_y_val_def TensorDataset_def DataLoader_def
      Let_def)

lemma int_schedule:
  "schedule (\<lambda>epoch. make_batches (batch_size (params tiny_mlp)) tiny_X (to_float int_targets)
                        [2, 0, 1]) [0..<nat (epochs (args tiny_mlp))] =
     [(0, 0, tiny_batch 3), (0, 1, tiny_batch 1), (0, 2, tiny_batch 2),
      (1, 0, tiny_batch 3), (1, 1, tiny_batch 1), (1, 2, tiny_batch 2)]"
  by (simp add: schedule_def make_batches_def to_float_int_targets tiny_mlp_args
      tiny_args_def tiny_params_def tiny_X_def tiny_batch_def
      chunks1 select_rows_def enumerate_eq_zip upt_conv_Cons numeral_2_eq_2)

lemma int_val_loader:
  "make_batches (batch_size (params tiny_mlp)) tiny_X_val (to_float tiny_y_val) [0] =
     [tiny_batch 0]"
  by (simp add: make_batches_def tiny_mlp_args tiny_params_def tiny_X_val_def tiny_y_val_def
      tiny_batch_def chunks1 select_rows_def)

lemma int_run:
  "run_steps (const_rt (Fin 1)) MSELoss
     (\<lambda>epoch i. make_batches (batch_size (params tiny_mlp)) tiny_X_val (to_float tiny_y_val) [0])
     (initial_state (const_rt (Fin 1)) tiny_mlp Map.empty)
     (schedule (\<lambda>epoch. make_batches (batch_size (params tiny_mlp)) tiny_X (to_float int_targets)
                           [2, 0, 1]) [0..<nat (epochs (args tiny_mlp))]) =
     Inr (Return (tiny_state [(0, 0, Fin 1, Fin 1), (0, 1, Fin 1, Fin 1)]))"
  unfolding int_schedule int_val_loader
  using tiny_step0 tiny_step1 by simp

lemma signed_binary_logits:
  "logits (signed_mlp ob 1) signed_input = Inr \<lparr>shape = [2, 1], data = [Fin 3, Fin 3]\<rparr>"
  by (simp add: logits_def signed_eval signed_input_def)

theorem fit_loss_selection_witness:
  "fit_ready tiny_mlp tiny_X int_targets tiny_X_val tiny_y_val \<and>
   objective (args tiny_mlp) = ''regression'' \<and>
   to_float int_targets = FloatTensor \<lparr>shape = [3], data = [Fin 1, Fin 2, Fin 3]\<rparr> \<and>
   is_float (to_float int_targets) \<and> \<not> is_float int_targets \<and>
   fit (const_rt (Fin 1)) tiny_mlp Map.empty tiny_X int_targets tiny_X_val tiny_y_val
     (\<lambda>epoch. [2, 0, 1]) (\<lambda>epoch i. [0]) =
     map_sum id flow_state
       (run_steps (const_rt (Fin 1)) MSELoss
          (\<lambda>epoch i. make_batches (batch_size (params tiny_mlp)) tiny_X_val
                        (to_float tiny_y_val) [0])
          (initial_state (const_rt (Fin 1)) tiny_mlp Map.empty)
          (schedule (\<lambda>epoch. make_batches (batch_size (params tiny_mlp)) tiny_X
                                (to_float int_targets) [2, 0, 1])
             [0..<nat (epochs (args tiny_mlp))])) \<and>
   fit (const_rt (Fin 1)) tiny_mlp Map.empty tiny_X int_targets tiny_X_val tiny_y_val
     (\<lambda>epoch. [2, 0, 1]) (\<lambda>epoch i. [0]) =
     Inr (tiny_state [(0, 0, Fin 1, Fin 1), (0, 1, Fin 1, Fin 1)]) \<and>
   objective (args (signed_mlp ''binary'' 1)) = ''binary'' \<and>
   batch_loss probe_rt (signed_mlp ''binary'' 1) BCEWithLogitsLoss
     (signed_input, FloatTensor \<lparr>shape = [2], data = [Fin 0, Fin 1]\<rparr>) = Inr (Fin 6) \<and>
   objective (args (signed_mlp ''classification'' 2)) = ''classification'' \<and>
   batch_loss probe_rt (signed_mlp ''classification'' 2) CrossEntropyLoss
     (signed_input, IntTensor \<lparr>shape = [2], data = [0, 1]\<rparr>) =
     (case softmax_dim1 \<lparr>shape = [2, 2], data = [Fin 3, Fin (- 3), Fin 3, Fin (- 3)]\<rparr> of
        Inl e \<Rightarrow> Inl e
      | Inr p \<Rightarrow> loss_fn probe_rt CrossEntropyLoss p (IntTensor \<lparr>shape = [2], data = [0, 1]\<rparr>))"
proof -
  let ?tb = "FloatTensor \<lparr>shape = [2], data = [Fin 0, Fin 1]\<rparr>"
  let ?tc = "IntTensor \<lparr>shape = [2], data = [0, 1]\<rparr>"
  have ob: "objective (args tiny_mlp) = ''regression''"
    by (simp add: tiny_mlp_args tiny_args_def)
  note T = fit_loss_selection [OF int_ready, of "const_rt (Fin 1)" Map.empty
      "\<lambda>epoch. [2, 0, 1]" "\<lambda>epoch i. [0]"]
  have run: "fit (const_rt (Fin 1)) tiny_mlp Map.empty tiny_X int_targets tiny_X_val tiny_y_val
     (\<lambda>epoch. [2, 0, 1]) (\<lambda>epoch i. [0]) =
     map_sum id flow_state
       (run_steps (const_rt (Fin 1)) MSELoss
          (\<lambda>epoch i. make_batches (batch_size (params tiny_mlp)) tiny_X_val
                        (to_float tiny_y_val) [0])
          (initial_state (const_rt (Fin 1)) tiny_mlp Map.empty)
          (schedule (\<lambda>epoch. make_batches (batch_size (params tiny_mlp)) tiny_X
                                (to_float int_targets) [2, 0, 1])
             [0..<nat (epochs (args tiny_mlp))]))"
    using T [THEN conjunct1] ob by (rule mp)
  have res: "fit (const_rt (Fin 1)) tiny_mlp Map.empty tiny_X int_targets tiny_X_val tiny_y_val
     (\<lambda>epoch. [2, 0, 1]) (\<lambda>epoch i. [0]) =
     Inr (tiny_state [(0, 0, Fin 1, Fin 1), (0, 1, Fin 1, Fin 1)])"
    unfolding run int_run by simp
  have fl: "is_float (to_float int_targets)" "\<not> is_float int_targets"
    by (simp_all add: int_targets_def)
  note P = fit_loss_selection [OF int_ready, of probe_rt]
  have obb: "objective (args (signed_mlp ''binary'' 1)) = ''binary''"
    and obc: "objective (args (signed_mlp ''classification'' 2)) = ''classification''"
    by (rule signed_objective)+
  have raw: "\<forall>m lf x t.
      objective (args m) = ''regression'' \<or> objective (args m) = ''binary'' \<longrightarrow>
        batch_loss probe_rt m lf (x, t) =
          (case logits m x of Inl e \<Rightarrow> Inl e | Inr z \<Rightarrow> loss_fn probe_rt lf (squeeze z) t)"
    using P by blast
  have sm: "\<forall>m lf x t.
      objective (args m) = ''classification'' \<longrightarrow>
        batch_loss probe_rt m lf (x, t) =
          (case logits m x of
             Inl e \<Rightarrow> Inl e
           | Inr z \<Rightarrow>
               (case softmax_dim1 z of Inl e \<Rightarrow> Inl e | Inr p \<Rightarrow> loss_fn probe_rt lf p t))"
    using P by blast
  have b: "batch_loss probe_rt (signed_mlp ''binary'' 1) BCEWithLogitsLoss (signed_input, ?tb)
      = Inr (Fin 6)"
  proof -
    have "batch_loss probe_rt (signed_mlp ''binary'' 1) BCEWithLogitsLoss (signed_input, ?tb) =
        (case logits (signed_mlp ''binary'' 1) signed_input of
           Inl e \<Rightarrow> Inl e
         | Inr z \<Rightarrow> loss_fn probe_rt BCEWithLogitsLoss (squeeze z) ?tb)"
      using raw obb by blast
    then show ?thesis
      unfolding signed_binary_logits by (simp add: probe_rt_def squeeze_def fl_sum_def)
  qed
  have c: "batch_loss probe_rt (signed_mlp ''classification'' 2) CrossEntropyLoss
       (signed_input, ?tc) =
     (case softmax_dim1 \<lparr>shape = [2, 2], data = [Fin 3, Fin (- 3), Fin 3, Fin (- 3)]\<rparr> of
        Inl e \<Rightarrow> Inl e
      | Inr p \<Rightarrow> loss_fn probe_rt CrossEntropyLoss p ?tc)"
  proof -
    have "batch_loss probe_rt (signed_mlp ''classification'' 2) CrossEntropyLoss
         (signed_input, ?tc) =
        (case logits (signed_mlp ''classification'' 2) signed_input of
           Inl e \<Rightarrow> Inl e
         | Inr z \<Rightarrow>
             (case softmax_dim1 z of
                Inl e \<Rightarrow> Inl e
              | Inr p \<Rightarrow> loss_fn probe_rt CrossEntropyLoss p ?tc))"
      using sm obc by blast
    then show ?thesis
      unfolding signed_logits by simp
  qed
  show ?thesis
    using int_ready ob to_float_int_targets fl run res obb b obc c by (intro conjI)
qed

section \<open>Properties of predict\<close>

subsection \<open>The forward pass row by row\<close>

lemma length_affine: "length (affine l r) = out_features l"
  by (simp add: affine_def)

lemma row2_rows_matrix:
  "(\<And>i. i < n \<Longrightarrow> length (f i) = m) \<Longrightarrow> i < n \<Longrightarrow> row2 (rows_matrix n m f) i = f i"
  using take_drop_concat_blocks [of n f m i] by (simp add: row2_def rows_matrix_def)

lemma rows_matrix_cong:
  assumes "\<And>i. i < n \<Longrightarrow> f i = g i"
  shows "rows_matrix n m f = rows_matrix n m g"
proof -
  have "map f [0..<n] = map g [0..<n]" using assms by simp
  then show ?thesis by (simp only: rows_matrix_def)
qed

lemma linear_apply_rows:
  assumes "\<And>i. i < n \<Longrightarrow> length (f i) = in_features l"
  shows "linear_apply l (rows_matrix n (in_features l) f) =
           Inr (rows_matrix n (out_features l) (\<lambda>i. affine l (f i)))"
proof -
  have eq: "map (\<lambda>i. affine l (take (in_features l) (drop (i * in_features l)
            (concat (map f [0..<n]))))) [0..<n] = map (\<lambda>i. affine l (f i)) [0..<n]"
    using take_drop_concat_blocks [of n f "in_features l"] assms by simp
  show ?thesis
    by (simp add: linear_apply_def rows_matrix_def eq)
qed

lemma relu_rows: "relu (rows_matrix n m f) = rows_matrix n m (\<lambda>i. map fl_relu (f i))"
  by (simp add: relu_def rows_matrix_def map_concat o_def)

lemma sigmoid_rows: "sigmoid (rows_matrix n m f) = rows_matrix n m (\<lambda>i. map fl_sigmoid (f i))"
  by (simp add: sigmoid_def rows_matrix_def map_concat o_def)

lemma softmax_rows:
  assumes "\<And>i. i < n \<Longrightarrow> length (f i) = m"
  shows "softmax_dim1 (rows_matrix n m f) = Inr (rows_matrix n m (\<lambda>i. softmax1 (f i)))"
proof -
  have len: "length (data (rows_matrix n m f)) = n * m"
    using length_concat_blocks [of n f m] assms by (simp add: rows_matrix_def)
  have "softmax_dim1 (rows_matrix n m f) =
      Inr (rows_matrix n m (\<lambda>i. softmax1 (row2 (rows_matrix n m f) i)))"
    using softmax_dim1_matrix [of "rows_matrix n m f" n m] len
    by (simp add: rows_matrix_def)
  also have "rows_matrix n m (\<lambda>i. softmax1 (row2 (rows_matrix n m f) i)) =
      rows_matrix n m (\<lambda>i. softmax1 (f i))"
    by (rule rows_matrix_cong) (simp add: row2_rows_matrix assms)
  finally show ?thesis .
qed

lemma hidden_layers_rows:
  "dims_chain d ls \<Longrightarrow> (\<And>i. i < n \<Longrightarrow> length (f i) = d) \<Longrightarrow>
     hidden_layers ls (rows_matrix n d f) =
       Inr (rows_matrix n (if ls = [] then d else out_features (last ls))
              (\<lambda>i. fold (\<lambda>layer x. map fl_relu (affine layer x)) ls (f i))) \<and>
     (\<forall>i<n. length (fold (\<lambda>layer x. map fl_relu (affine layer x)) ls (f i)) =
              (if ls = [] then d else out_features (last ls)))"
proof (induction ls arbitrary: d f)
  case Nil
  then show ?case by simp
next
  case (Cons l ls)
  have d: "in_features l = d" and ch: "dims_chain (out_features l) ls"
    using Cons.prems(1) by auto
  let ?g = "\<lambda>i. map fl_relu (affine l (f i))"
  have la: "linear_apply l (rows_matrix n d f) = Inr (rows_matrix n (out_features l) (\<lambda>i. affine l (f i)))"
    using linear_apply_rows [of n f l] Cons.prems(2) d by simp
  have lg: "\<And>i. i < n \<Longrightarrow> length (?g i) = out_features l"
    by (simp add: length_affine)
  from Cons.IH [of "out_features l" ?g, OF ch lg] show ?case
    by (simp add: la relu_rows)
qed

lemma dims_chain_snoc:
  "dims_chain d (ls @ [l]) \<longleftrightarrow>
     dims_chain d ls \<and> in_features l = (if ls = [] then d else out_features (last ls))"
  by (induction ls arbitrary: d) auto

lemma forward_rows:
  assumes dims: "dims_chain (in_features (input_layer self)) (affine_layers self)"
    and len: "\<And>i. i < n \<Longrightarrow> length (f i) = in_features (input_layer self)"
  shows "forward self (rows_matrix n (in_features (input_layer self)) f) =
           Inr (rows_matrix n (out_features (output_layer self)) (\<lambda>i. forward_row self (f i)))"
proof -
  let ?l0 = "input_layer self" and ?lo = "output_layer self"
  let ?g = "\<lambda>i. map fl_relu (affine ?l0 (f i))"
  let ?h = "\<lambda>i. fold (\<lambda>layer x. map fl_relu (affine layer x)) (layers self) (?g i)"
  define d where "d = (if layers self = [] then out_features ?l0 else out_features (last (layers self)))"
  have ch: "dims_chain (out_features ?l0) (layers self)" and od: "in_features ?lo = d"
    using dims by (auto simp: affine_layers_def dims_chain_snoc d_def)
  have s1: "linear_apply ?l0 (rows_matrix n (in_features ?l0) f) =
      Inr (rows_matrix n (out_features ?l0) (\<lambda>i. affine ?l0 (f i)))"
    using len by (rule linear_apply_rows)
  have lg: "\<And>i. i < n \<Longrightarrow> length (?g i) = out_features ?l0"
    by (simp add: length_affine)
  from hidden_layers_rows [where f = ?g and n = n, OF ch lg] have
    s2: "hidden_layers (layers self) (rows_matrix n (out_features ?l0) ?g) = Inr (rows_matrix n d ?h)"
    and lh: "\<And>i. i < n \<Longrightarrow> length (?h i) = in_features ?lo"
    unfolding d_def [symmetric] od by auto
  have s3: "linear_apply ?lo (rows_matrix n d ?h) =
      Inr (rows_matrix n (out_features ?lo) (\<lambda>i. affine ?lo (?h i)))"
    using linear_apply_rows [of n ?h ?lo] lh od by simp
  have s4: "softmax_dim1 (rows_matrix n (out_features ?lo) (\<lambda>i. affine ?lo (?h i))) =
      Inr (rows_matrix n (out_features ?lo) (\<lambda>i. softmax1 (affine ?lo (?h i))))"
    by (rule softmax_rows) (simp add: length_affine)
  show ?thesis
    by (simp add: forward_def s1 relu_rows s2 s3 s4 forward_row_def Let_def)
qed

lemma length_forward_row: "length (forward_row self r) = out_features (output_layer self)"
  by (simp add: forward_row_def Let_def length_affine length_softmax1)

lemma length_predict_row: "length (predict_row self r) = out_features (output_layer self)"
  by (simp add: predict_row_def length_forward_row)

subsection \<open>Batches and their concatenation\<close>

lemma concat_map_nth:
  "concat (map (\<lambda>k. g (idxs ! k)) [0..<length idxs]) = concat (map g idxs)"
proof -
  have "map (\<lambda>k. g (idxs ! k)) [0..<length idxs] = map g (map (\<lambda>k. idxs ! k) [0..<length idxs])"
    by simp
  then show ?thesis by (simp only: map_nth)
qed

lemma select_rows_matrix:
  assumes "shape X = [N, d]"
  shows "select_rows X idxs = rows_matrix (length idxs) d (\<lambda>k. row2 X (idxs ! k))"
  using assms concat_map_nth [of "\<lambda>i. take d (drop (i * d) (data X))" idxs]
  by (simp add: select_rows_def rows_matrix_def row2_def)

lemma predict_batch:
  assumes dims: "dims_chain (in_features (input_layer self)) (affine_layers self)"
    and X: "shape X = [N, in_features (input_layer self)]"
      "length (data X) = N * in_features (input_layer self)"
    and idxs: "\<forall>i\<in>set idxs. i < N"
  shows "forward self (select_rows X idxs) =
           Inr (rows_matrix (length idxs) (out_features (output_layer self))
                  (\<lambda>k. forward_row self (row2 X (idxs ! k))))"
proof -
  have "length (row2 X (idxs ! k)) = in_features (input_layer self)" if "k < length idxs" for k
    using length_row2 [OF X] idxs that by simp
  then show ?thesis
    unfolding select_rows_matrix [OF X(1)] using dims by (intro forward_rows)
qed

lemma predict_loop_rows:
  assumes dims: "dims_chain (in_features (input_layer self)) (affine_layers self)"
    and X: "shape X = [N, in_features (input_layer self)]"
      "length (data X) = N * in_features (input_layer self)"
  shows "\<forall>idxs\<in>set batches. \<forall>i\<in>set idxs. i < N \<Longrightarrow>
           predict_loop self X batches = Inr (map (batch_predictions self X) batches)"
proof (induction batches)
  case Nil
  then show ?case by simp
next
  case (Cons idxs batches)
  have i: "\<forall>i\<in>set idxs. i < N" using Cons.prems by simp
  note f = predict_batch [OF dims X i]
  have b: "(if objective (args self) = ''binary''
            then sigmoid (rows_matrix (length idxs) (out_features (output_layer self))
                  (\<lambda>k. forward_row self (row2 X (idxs ! k))))
            else rows_matrix (length idxs) (out_features (output_layer self))
                  (\<lambda>k. forward_row self (row2 X (idxs ! k)))) =
           batch_predictions self X idxs"
  proof (cases "objective (args self) = ''binary''")
    case True
    then show ?thesis
      unfolding sigmoid_rows
      by (simp add: batch_predictions_def rows_matrix_def predict_row_def
          concat_map_nth [of "\<lambda>j. map fl_sigmoid (forward_row self (row2 X j))" idxs])
  next
    case False
    then show ?thesis
      by (simp add: batch_predictions_def rows_matrix_def predict_row_def
          concat_map_nth [of "\<lambda>j. forward_row self (row2 X j)" idxs])
  qed
  show ?case
    using Cons by (simp add: f b)
qed

lemma concat_map_concat:
  "concat (map (\<lambda>xs. concat (map g xs)) xss) = concat (map g (concat xss))"
  by (induction xss) auto

lemma concatenate_batches:
  assumes "batches \<noteq> []"
  shows "concatenate (map (batch_predictions self X) batches) =
           Inr \<lparr>shape = [length (concat batches), out_features (output_layer self)],
                data = concat (map (\<lambda>j. predict_row self (row2 X j)) (concat batches))\<rparr>"
proof -
  obtain b bs where bs: "batches = b # bs" using assms by (cases batches) auto
  have ok: "\<not> list_ex (\<lambda>a. shape a = [] \<or>
        tl (shape a) \<noteq> tl (shape (batch_predictions self X b)))
      (map (batch_predictions self X) batches)"
    by (simp add: list_ex_iff batch_predictions_def)
  have sh: "sum_list (map (\<lambda>a. hd (shape a)) (map (batch_predictions self X) batches)) =
      length (concat batches)"
    by (simp add: batch_predictions_def o_def length_concat)
  have dt: "concat (map data (map (batch_predictions self X) batches)) =
      concat (map (\<lambda>j. predict_row self (row2 X j)) (concat batches))"
    using concat_map_concat [of "\<lambda>j. predict_row self (row2 X j)" batches]
    by (simp add: batch_predictions_def o_def)
  show ?thesis
    using ok sh dt unfolding bs
    by (simp add: concatenate_def batch_predictions_def)
qed

lemma chunks_nonempty: "0 < n \<Longrightarrow> xs \<noteq> [] \<Longrightarrow> chunks n xs \<noteq> []"
  by (subst chunks.simps) simp

lemma chunks_elements:
  assumes "0 < n" "idxs \<in> set (chunks n xs)" "i \<in> set idxs"
  shows "i \<in> set xs"
proof -
  have "i \<in> set (concat (chunks n xs))" using assms(2,3) by auto
  then show ?thesis by (simp only: concat_chunks [OF assms(1), of xs])
qed

lemma load_model_Inr:
  assumes "load_model rt self fs ''best'' ''tmp'' = Inr self1"
  shows "\<exists>sd. fs (best_path rt self) = Some sd \<and> input_layer self1 = sd_input_layer sd \<and>
              layers self1 = sd_layers sd \<and> output_layer self1 = sd_output_layer sd"
    and "params self1 = params self" and "args self1 = args self"
  using assms
  by (auto simp: load_model_def best_path_def load_state_dict_def Let_def
      split: option.splits if_splits)

lemma forward_single_row:
  assumes "dims_chain (in_features (input_layer self)) (affine_layers self)"
    and "length r = in_features (input_layer self)"
  shows "forward self \<lparr>shape = [1, length r], data = r\<rparr> =
           Inr \<lparr>shape = [1, out_features (output_layer self)], data = forward_row self r\<rparr>"
  using forward_rows [of self 1 "\<lambda>i. r"] assms by (simp add: rows_matrix_def)

lemma predict_empty:
  assumes "load_model rt self fs ''best'' ''tmp'' = Inr self1" "shape X = 0 # ds"
  shows "predict rt self fs X order = Inl ValueError"
  using assms by (simp add: predict_def DataLoader_def)

text \<open>
  Claim C3. With the best checkpoint present and loadable, a positive batch size and a
  non-empty input \<open>X\<close> of \<open>N\<close> rows of the model's width, \<open>predict\<close> loads the checkpoint
  from \<open>tmp\<close>, runs the forward pass on the batches of the sampler's random order (a
  permutation of the row indices), applies the sigmoid exactly for the binary objective,
  concatenates the batch outputs in the order of iteration, keeps the result in
  \<open>predictions\<close> and returns it: an array of exactly \<open>N\<close> rows whose row \<open>j\<close> is the
  prediction for input row \<open>order ! j\<close>, the shuffled order and not the order of the
  input. (An input without rows is refused when the loader is built, see \<open>predict_empty\<close>.)
\<close>

theorem predict_rows:
  assumes load: "load_model rt self fs ''best'' ''tmp'' = Inr self1"
    and bs: "0 < batch_size (params self)"
    and dims: "dims_chain (in_features (input_layer self1)) (affine_layers self1)"
    and X: "shape X = [N, in_features (input_layer self1)]"
      "length (data X) = N * in_features (input_layer self1)"
    and N: "0 < N"
    and perm: "distinct order" "set order = {0..<N}"
  shows "\<exists>p. predict rt self fs X order = Inr (p, self1\<lparr>predictions := Some p\<rparr>) \<and>
           (\<exists>sd. fs (best_path rt self) = Some sd \<and> input_layer self1 = sd_input_layer sd \<and>
                 layers self1 = sd_layers sd \<and> output_layer self1 = sd_output_layer sd) \<and>
           predict_loop self1 X (chunks (batch_size (params self)) order) =
             Inr (map (batch_predictions self1 X) (chunks (batch_size (params self)) order)) \<and>
           concatenate (map (batch_predictions self1 X) (chunks (batch_size (params self)) order))
             = Inr p \<and>
           shape p = [N, out_features (output_layer self1)] \<and> hd (shape p) = N \<and>
           length (data p) = N * out_features (output_layer self1) \<and>
           (\<forall>j<N. row2 p j = predict_row self1 (row2 X (order ! j))) \<and>
           (\<forall>r. predict_row self1 r =
                  (if objective (args self) = ''binary'' then map fl_sigmoid (forward_row self1 r)
                   else forward_row self1 r)) \<and>
           (\<forall>r. length r = in_features (input_layer self1) \<longrightarrow>
                  forward self1 \<lparr>shape = [1, length r], data = r\<rparr> =
                    Inr \<lparr>shape = [1, out_features (output_layer self1)],
                         data = forward_row self1 r\<rparr>)"
proof -
  let ?bs = "batch_size (params self)"
  let ?C = "out_features (output_layer self1)"
  let ?g = "\<lambda>j. predict_row self1 (row2 X j)"
  let ?p = "\<lparr>shape = [N, ?C], data = concat (map ?g order)\<rparr>"
  note lm = load_model_Inr [OF load]
  have len: "length order = N"
    using perm distinct_card [of order] by simp
  have ne: "order \<noteq> []" using len N by auto
  have idx: "\<forall>idxs\<in>set (chunks ?bs order). \<forall>i\<in>set idxs. i < N"
    using chunks_elements [OF bs] perm(2) by fastforce
  have loop: "predict_loop self1 X (chunks ?bs order) =
      Inr (map (batch_predictions self1 X) (chunks ?bs order))"
    using predict_loop_rows [OF dims X idx] .
  have cat: "concatenate (map (batch_predictions self1 X) (chunks ?bs order)) = Inr ?p"
    using concatenate_batches [OF chunks_nonempty [OF bs ne], of self1 X]
    by (simp add: concat_chunks [OF bs] len)
  have pred: "predict rt self fs X order = Inr (?p, self1\<lparr>predictions := Some ?p\<rparr>)"
    using bs X(1) N by (simp add: predict_def DataLoader_def load lm(2) loop cat)
  have rm: "?p = rows_matrix N ?C (\<lambda>j. ?g (order ! j))"
    using concat_map_nth [of ?g order] by (simp add: rows_matrix_def len)
  have rows: "\<forall>j<N. row2 ?p j = predict_row self1 (row2 X (order ! j))"
    unfolding rm by (simp add: row2_rows_matrix length_predict_row)
  have lenp: "length (data ?p) = N * ?C"
    unfolding rm using length_concat_blocks [of N "\<lambda>j. ?g (order ! j)" ?C]
    by (simp add: rows_matrix_def length_predict_row)
  have sig: "\<forall>r. predict_row self1 r =
                  (if objective (args self) = ''binary'' then map fl_sigmoid (forward_row self1 r)
                   else forward_row self1 r)"
    by (simp add: predict_row_def lm(3))
  have single: "\<forall>r. length r = in_features (input_layer self1) \<longrightarrow>
                  forward self1 \<lparr>shape = [1, length r], data = r\<rparr> =
                    Inr \<lparr>shape = [1, ?C], data = forward_row self1 r\<rparr>"
    using forward_single_row [OF dims] by blast
  show ?thesis
    apply (rule exI [of _ ?p])
    using pred lm(1) loop cat rows lenp sig single by simp
qed

lemma id_load:
  "load_model (const_rt v) id_mlp id_files ''best'' ''tmp'' = Inr id_mlp"
  by (simp add: load_model_def const_rt_def id_files_def load_state_dict_def get_state_dict_def
      same_shape_def list_all2_same)

lemma chunks2: "chunks 2 [a, b, c] = [[a, b], [c]]"
  by (simp add: chunks.simps)

lemma id_predict:
  "predict (const_rt v) id_mlp id_files tiny_X [2, 0, 1] =
     Inr (shuffled_predictions, id_mlp\<lparr>predictions := Some shuffled_predictions\<rparr>)"
proof -
  have p: "batch_size (params id_mlp) = 2" "objective (args id_mlp) = ''regression''"
    "shape tiny_X \<noteq> []" "DataLoader (shape tiny_X) 2 = None"
    by (simp_all add: id_mlp_def MLP_init_def Let_def tiny_X_def DataLoader_def)
  have f1: "forward id_mlp (select_rows tiny_X [2, 0]) = Inr \<lparr>shape = [2, 1], data = [Fin 3, Fin 1]\<rparr>"
    by (simp add: forward_def id_mlp_def MLP_init_def Let_def Linear_def ones_init_def
        linear_apply_def affine_def relu_def fl_sum_def select_rows_def tiny_X_def
        upt_conv_Cons numeral_2_eq_2)
  have f2: "forward id_mlp (select_rows tiny_X [Suc 0]) = Inr \<lparr>shape = [1, 1], data = [Fin 2]\<rparr>"
    by (simp add: forward_def id_mlp_def MLP_init_def Let_def Linear_def ones_init_def
        linear_apply_def affine_def relu_def fl_sum_def select_rows_def tiny_X_def)
  show ?thesis
    unfolding predict_def id_load
    by (simp add: p chunks2 f1 f2 concatenate_def shuffled_predictions_def)
qed

theorem predict_rows_witness:
  "load_model (const_rt (Fin 1)) id_mlp id_files ''best'' ''tmp'' = Inr id_mlp \<and>
   0 < batch_size (params id_mlp) \<and>
   dims_chain (in_features (input_layer id_mlp)) (affine_layers id_mlp) \<and>
   shape tiny_X = [3, in_features (input_layer id_mlp)] \<and>
   length (data tiny_X) = 3 * in_features (input_layer id_mlp) \<and>
   (0::nat) < 3 \<and> distinct [2, 0, 1::nat] \<and> set [2, 0, 1::nat] = {0..<3} \<and>
   predict (const_rt (Fin 1)) id_mlp id_files tiny_X [2, 0, 1] =
     Inr (shuffled_predictions, id_mlp\<lparr>predictions := Some shuffled_predictions\<rparr>) \<and>
   hd (shape shuffled_predictions) = 3 \<and>
   row2 shuffled_predictions 0 = predict_row id_mlp (row2 tiny_X 2) \<and>
   row2 shuffled_predictions 0 = [Fin 3] \<and> row2 tiny_X 0 = [Fin 1]"
proof -
  have bs: "0 < batch_size (params id_mlp)"
    by (simp add: id_mlp_def MLP_init_def Let_def)
  have dims: "dims_chain (in_features (input_layer id_mlp)) (affine_layers id_mlp)"
    by (simp add: id_mlp_def MLP_init_def Let_def Linear_def affine_layers_def)
  have X: "shape tiny_X = [3, in_features (input_layer id_mlp)]"
    "length (data tiny_X) = 3 * in_features (input_layer id_mlp)"
    by (simp_all add: tiny_X_def id_mlp_def MLP_init_def Let_def Linear_def)
  have N: "(0::nat) < 3" by simp
  have perm: "distinct [2, 0, 1::nat]" "set [2, 0, 1::nat] = {0..<3}"
    by auto
  from predict_rows [OF id_load bs dims X N perm]
  obtain p where p: "predict (const_rt (Fin 1)) id_mlp id_files tiny_X [2, 0, 1] =
      Inr (p, id_mlp\<lparr>predictions := Some p\<rparr>)"
    "\<forall>j<3. row2 p j = predict_row id_mlp (row2 tiny_X ([2, 0, 1] ! j))"
    by blast
  have pe: "p = shuffled_predictions" using p(1) id_predict [of "Fin 1"] by simp
  have r0: "row2 shuffled_predictions 0 = predict_row id_mlp (row2 tiny_X 2)"
    using p(2) pe by auto
  have vals: "row2 shuffled_predictions 0 = [Fin 3]" "row2 tiny_X 0 = [Fin 1]"
    "hd (shape shuffled_predictions) = 3"
    by (simp_all add: row2_def shuffled_predictions_def tiny_X_def)
  show ?thesis
    using id_load [of "Fin 1"] bs dims X N perm id_predict [of "Fin 1"] r0 vals
    by (intro conjI)
qed

end
